theory Spec2Isabelle
  imports Complex_Main "HOL-Library.Multiset"
begin

section \<open>Numbers\<close>

text \<open>
  The program computes with ECMAScript numbers. A finite number is read as the real it
  denotes and arithmetic on finite numbers is exact (rounding and overflow are outside
  the model). The three non-finite values are kept as constructors, so that every
  \<^verbatim>\<open>Number.isFinite\<close> guard and every \<^verbatim>\<open>Number.POSITIVE_INFINITY\<close> of the source is a
  branch of the model. A source function whose every branch yields a finite number
  returns \<^typ>\<open>real\<close>.
\<close>

datatype jsnum = Fin real | PosInf | NegInf | NaN

fun isFinite :: "jsnum \<Rightarrow> bool" where
  "isFinite (Fin x) = True"
| "isFinite _ = False"

text \<open>The relational operator \<^verbatim>\<open><\<close> on numbers: false as soon as one side is NaN.\<close>

fun jsLess :: "jsnum \<Rightarrow> jsnum \<Rightarrow> bool" where
  "jsLess (Fin a) (Fin b) = (a < b)"
| "jsLess (Fin a) PosInf = True"
| "jsLess NegInf (Fin b) = True"
| "jsLess NegInf PosInf = True"
| "jsLess _ _ = False"

definition clamp :: "real \<Rightarrow> real \<Rightarrow> real \<Rightarrow> real" where
  "clamp v lo hi = min (max v lo) hi"

section \<open>Strings\<close>

text \<open>
  A string is the list of the bytes of its UTF-8 encoding, and the model is exact on
  ASCII text: the white space removed by \<^verbatim>\<open>trim\<close> and matched by \<^verbatim>\<open>\s\<close> is TAB, LF,
  VT, FF, CR and SPACE, and \<^verbatim>\<open>toLowerCase\<close> maps the letters A to Z; any other byte is
  left alone.
\<close>

definition isWhiteSpace :: "char \<Rightarrow> bool" where
  "isWhiteSpace c = (c \<in> set [CHR 0x09, CHR 0x0A, CHR 0x0B, CHR 0x0C, CHR 0x0D, CHR '' ''])"

definition upperLetters :: string where
  "upperLetters = ''ABCDEFGHIJKLMNOPQRSTUVWXYZ''"

definition lowerLetters :: string where
  "lowerLetters = ''abcdefghijklmnopqrstuvwxyz''"

definition lowerChar :: "char \<Rightarrow> char" where
  "lowerChar c =
     (case map_of (zip upperLetters lowerLetters) c of Some l \<Rightarrow> l | None \<Rightarrow> c)"

definition toLowerCase :: "string \<Rightarrow> string" where
  "toLowerCase s = map lowerChar s"

definition trim :: "string \<Rightarrow> string" where
  "trim s = rev (dropWhile isWhiteSpace (rev (dropWhile isWhiteSpace s)))"

text \<open>
  \<^verbatim>\<open>value.replace(/\s+/g, ' ')\<close>: every maximal run of white space becomes one space.
\<close>

function collapseWhiteSpace :: "string \<Rightarrow> string" where
  "collapseWhiteSpace [] = []"
| "collapseWhiteSpace (c # cs) =
     (if isWhiteSpace c then CHR '' '' # collapseWhiteSpace (dropWhile isWhiteSpace cs)
      else c # collapseWhiteSpace cs)"
  by pat_completeness auto
termination
  by (relation "measure length") (auto simp: length_dropWhile_le less_Suc_eq_le)

text \<open>
  \<^verbatim>\<open>csvData.replace\<close> of a leading byte-order mark by the empty string: the mark
  U+FEFF is the three bytes EF BB BF of its UTF-8 encoding.
\<close>

definition stripBom :: "string \<Rightarrow> string" where
  "stripBom s = (if take 3 s = [CHR 0xEF, CHR 0xBB, CHR 0xBF] then drop 3 s else s)"

text \<open>
  \<^verbatim>\<open>split(/\r?\n/)\<close>: a line ends at LF or at CR LF; a CR that no LF follows is an
  ordinary character.
\<close>

fun splitLoop :: "string \<Rightarrow> string \<Rightarrow> string list" where
  "splitLoop [] current = [current]"
| "splitLoop [c] current = (if c = CHR 0x0A then [current, []] else [current @ [c]])"
| "splitLoop (c # d # cs) current =
     (if c = CHR 0x0D \<and> d = CHR 0x0A then current # splitLoop cs []
      else if c = CHR 0x0A then current # splitLoop (d # cs) []
      else splitLoop (d # cs) (current @ [c]))"

definition splitLines :: "string \<Rightarrow> string list" where
  "splitLines s = splitLoop s []"

text \<open>
  The first two statements of the three parsers: strip the mark, trim, split, and keep the
  non-empty lines (\<^verbatim>\<open>filter(Boolean)\<close>).
\<close>

definition csvLines :: "string \<Rightarrow> string list" where
  "csvLines csvData =
     (let normalizedData = trim (stripBom csvData)
      in filter (\<lambda>line. line \<noteq> []) (splitLines normalizedData))"

text \<open>
  \<^verbatim>\<open>parseCsvLine\<close>: the loop over the characters of the line. The arguments are the rest
  of the line from index \<open>i\<close> on, \<open>inQuotes\<close>, \<open>current\<close> and \<open>result\<close>; the look-ahead
  \<^verbatim>\<open>line[i + 1]\<close> is the second character of the rest, absent at the end of the line.
\<close>

fun parseCsvLoop :: "string \<Rightarrow> bool \<Rightarrow> string \<Rightarrow> string list \<Rightarrow> string list" where
  "parseCsvLoop [] inQuotes current result = result @ [current]"
| "parseCsvLoop [c] inQuotes current result =
     (if c = CHR 0x22 then parseCsvLoop [] (\<not> inQuotes) current result
      else if c = CHR '','' \<and> \<not> inQuotes then parseCsvLoop [] inQuotes [] (result @ [current])
      else parseCsvLoop [] inQuotes (current @ [c]) result)"
| "parseCsvLoop (c # d # cs) inQuotes current result =
     (if c = CHR 0x22 then
        (if inQuotes \<and> d = CHR 0x22
         then parseCsvLoop cs inQuotes (current @ [CHR 0x22]) result
         else parseCsvLoop (d # cs) (\<not> inQuotes) current result)
      else if c = CHR '','' \<and> \<not> inQuotes
      then parseCsvLoop (d # cs) inQuotes [] (result @ [current])
      else parseCsvLoop (d # cs) inQuotes (current @ [c]) result)"

definition parseCsvLine :: "string \<Rightarrow> string list" where
  "parseCsvLine line = parseCsvLoop line False [] []"

text \<open>
  The quoting rules in the words of the specification, as a second definition: the
  characters of a line become tokens (a double quote toggles quoted mode and yields no
  token, a doubled double quote inside quoted mode is one literal quote, a comma outside
  quoted mode is a separator, any other character is a literal), and the fields are the
  runs of literals between separators, the last run included.
\<close>

datatype csvToken = Lit char | Sep

fun csvTokens :: "bool \<Rightarrow> string \<Rightarrow> csvToken list" where
  "csvTokens q [] = []"
| "csvTokens q [c] =
     (if c = CHR 0x22 then []
      else if c = CHR '','' \<and> \<not> q then [Sep]
      else [Lit c])"
| "csvTokens q (c # d # cs) =
     (if c = CHR 0x22 \<and> q \<and> d = CHR 0x22 then Lit (CHR 0x22) # csvTokens q cs
      else if c = CHR 0x22 then csvTokens (\<not> q) (d # cs)
      else if c = CHR '','' \<and> \<not> q then Sep # csvTokens q (d # cs)
      else Lit c # csvTokens q (d # cs))"

fun csvFields :: "csvToken list \<Rightarrow> string list" where
  "csvFields [] = [[]]"
| "csvFields (Sep # ts) = [] # csvFields ts"
| "csvFields (Lit c # ts) = (c # hd (csvFields ts)) # tl (csvFields ts)"

text \<open>
  The row object built by \<^verbatim>\<open>headers.reduce\<close>: \<^verbatim>\<open>acc[header] = values[index] ?? ''\<close>, a later
  header of the same name overwriting an earlier one. \<open>None\<close> is \<^verbatim>\<open>undefined\<close>.
\<close>

definition rowOf :: "string list \<Rightarrow> string list \<Rightarrow> (string \<rightharpoonup> string)" where
  "rowOf headers values =
     fold (\<lambda>(header, index) acc.
             acc(header \<mapsto> (if index < length values then values ! index else [])))
          (zip headers [0..<length headers]) Map.empty"

text \<open>
  \<^verbatim>\<open>Number(v)\<close>: the conversion of a string to a number is the host's and is a parameter
  \<open>num\<close> of the parsers; \<^verbatim>\<open>Number(undefined)\<close> is NaN.
\<close>

definition toNumber :: "(string \<Rightarrow> jsnum) \<Rightarrow> string option \<Rightarrow> jsnum" where
  "toNumber num v = (case v of None \<Rightarrow> NaN | Some s \<Rightarrow> num s)"

fun findIndex :: "('a \<Rightarrow> bool) \<Rightarrow> 'a list \<Rightarrow> nat option" where
  "findIndex P [] = None"
| "findIndex P (x # xs) = (if P x then Some 0 else map_option Suc (findIndex P xs))"

section \<open>Records\<close>

record NeighborhoodMatch =
  name :: string
  distance :: real
  rent :: "real option"

record Coordinates =
  latitude :: real
  longitude :: real

record NeighborhoodRecord = Coordinates +
  name :: string

text \<open>
  A tree record. Its coordinates are finite by construction (\<open>parseTreeData\<close> drops every
  row whose coordinates are not), so they are reals; the three scores are numbers that
  the source itself tests with \<^verbatim>\<open>Number.isFinite\<close> and \<^verbatim>\<open>== null\<close>.
\<close>

record TreeRecord = Coordinates +
  treeId :: string
  status :: string
  sidewalk :: string
  problems :: string
  neighborhood :: string
  species :: string
  treeFriendsScore :: jsnum
  affordabilityScore :: "jsnum option"
  accessibilityScore :: "jsnum option"

text \<open>
  A point of the spatial index: the coordinates of a tree and its position in the array
  of trees. (The reference to the tree itself is used only to write the score back, which
  the model does by position.)
\<close>

record IndexedTreePoint = Coordinates +
  index :: nat

datatype KdTreeNode = Null | Node IndexedTreePoint nat KdTreeNode KdTreeNode

section \<open>Normalisation of names and rent keys\<close>

definition normalizeNeighborhoodName :: "string \<Rightarrow> string" where
  "normalizeNeighborhoodName v =
     (let trimmed = trim (collapseWhiteSpace v)
      in if trimmed = [] then ''Unknown'' else trimmed)"

text \<open>
  \<^verbatim>\<open>RENT_KEY_ALIASES\<close> is an object literal, and \<^verbatim>\<open>RENT_KEY_ALIASES[lowered]\<close> is a property
  read: it finds the two own properties and, for any other name, what the object
  inherits from \<^verbatim>\<open>Object.prototype\<close>. The inherited values are objects, not strings, so
  the value that \<^verbatim>\<open>normalizeRentKey\<close> returns (and that keys the rent table) is either a
  string or one of these objects, named here by the property that reaches it.
\<close>

datatype jsvalue = JSString string | JSObject string

definition RENT_KEY_ALIASES :: "(string \<times> string) list" where
  "RENT_KEY_ALIASES =
     [(''gramecy park'', ''gramercy park''),
      (''stuyvesant town'', ''stuyvesant town/pcv'')]"

definition objectPrototypeProperties :: "string list" where
  "objectPrototypeProperties =
     [''constructor'', ''__proto__'', ''hasOwnProperty'', ''isPrototypeOf'',
      ''propertyIsEnumerable'', ''toString'', ''toLocaleString'', ''valueOf'',
      ''__defineGetter__'', ''__defineSetter__'', ''__lookupGetter__'', ''__lookupSetter__'']"

definition aliasProperty :: "string \<Rightarrow> jsvalue option" where
  "aliasProperty key =
     (case map_of RENT_KEY_ALIASES key of
        Some v \<Rightarrow> Some (JSString v)
      | None \<Rightarrow> if key \<in> set objectPrototypeProperties then Some (JSObject key) else None)"

definition normalizeRentKey :: "string \<Rightarrow> jsvalue" where
  "normalizeRentKey v =
     (let normalized = normalizeNeighborhoodName v
      in if normalized = [] \<or> normalized = ''Unknown'' then JSString []
         else
           (let lowered = toLowerCase normalized
            in case aliasProperty lowered of Some a \<Rightarrow> a | None \<Rightarrow> JSString lowered))"

text \<open>
  \<^verbatim>\<open>normalizeRentKey\<close> applied to a value that need not be a string: \<^verbatim>\<open>value.replace\<close> is
  not a function on the inherited objects, and the call throws a TypeError.
\<close>

datatype error = TypeError

definition normalizeRentKeyOfValue :: "jsvalue \<Rightarrow> error + jsvalue" where
  "normalizeRentKeyOfValue v =
     (case v of JSString s \<Rightarrow> Inr (normalizeRentKey s) | JSObject p \<Rightarrow> Inl TypeError)"

definition getNeighborhoodRent :: "string \<Rightarrow> (jsvalue \<rightharpoonup> real) \<Rightarrow> real option" where
  "getNeighborhoodRent nm rentLookup =
     (let key = normalizeRentKey nm
      in if key = JSString [] then None else rentLookup key)"

section \<open>Geodesic distance\<close>

definition toRadians :: "real \<Rightarrow> real" where
  "toRadians degrees = (degrees * pi) / 180"

definition atan2 :: "real \<Rightarrow> real \<Rightarrow> real" where
  "atan2 y x =
     (if 0 < x then arctan (y / x)
      else if x < 0 then (if 0 \<le> y then arctan (y / x) + pi else arctan (y / x) - pi)
      else if 0 < y then pi / 2
      else if y < 0 then - (pi / 2)
      else 0)"

text \<open>
  The haversine distance. \<^verbatim>\<open>Math.sqrt\<close> of a negative number is NaN, which makes the
  result NaN; this is the one way the result can fail to be finite.
\<close>

definition getDistanceInMeters :: "real \<Rightarrow> real \<Rightarrow> real \<Rightarrow> real \<Rightarrow> jsnum" where
  "getDistanceInMeters originLat originLng targetLat targetLng =
     (let earthRadius = 6371000;
          dLat = toRadians (targetLat - originLat);
          dLng = toRadians (targetLng - originLng);
          a = (sin (dLat / 2))\<^sup>2 +
              cos (toRadians originLat) * cos (toRadians targetLat) * (sin (dLng / 2))\<^sup>2
      in if a < 0 \<or> 1 - a < 0 then NaN
         else Fin (earthRadius * (2 * atan2 (sqrt a) (sqrt (1 - a)))))"

definition getMetersPerDegreeLongitude :: "real \<Rightarrow> real" where
  "getMetersPerDegreeLongitude lat =
     (let meters = 111320 * cos (toRadians lat)
      in if 0 < meters then meters else 0)"

definition getAxisDistanceMeters :: "real \<Rightarrow> nat \<Rightarrow> real \<Rightarrow> real" where
  "getAxisDistanceMeters deltaDegrees axis referenceLatitude =
     (if deltaDegrees = 0 then 0
      else if axis = 0 then deltaDegrees * 111132
      else deltaDegrees * getMetersPerDegreeLongitude referenceLatitude)"

section \<open>Scoring\<close>

fun calculateExpectedRent :: "NeighborhoodMatch list \<Rightarrow> real option" where
  "calculateExpectedRent (x1 # x2 # x3 # rest) =
     (case (rent x1, rent x2, rent x3) of
        (Some r1, Some r2, Some r3) \<Rightarrow>
          (let d1 = max (distance x1) 0;
               d2 = max (distance x2) 0;
               d3 = max (distance x3) 0;
               denominator = d1 + d2 + d3
           in if denominator = 0 then Some ((r1 + r2 + r3) / 3)
              else
                (let weight1 = (d2 + d3 - d1) / denominator;
                     weight2 = (d1 + d3 - d2) / denominator;
                     weight3 = (d1 + d2 - d3) / denominator
                 in Some (weight1 * r1 + weight2 * r2 + weight3 * r3)))
      | _ \<Rightarrow> None)"
| "calculateExpectedRent _ = None"

definition calculateAffordabilityScore :: "jsnum \<Rightarrow> real" where
  "calculateAffordabilityScore expectedRent =
     (case expectedRent of
        Fin r \<Rightarrow> if r = 0 then 0 else clamp (36370 / r - 2.737) 0 10
      | _ \<Rightarrow> 0)"

definition calculateHealthScore :: "TreeRecord \<Rightarrow> nat" where
  "calculateHealthScore tree =
     (let st = toLowerCase (status tree) in
      if st = ''stump'' \<or> st = ''dead'' then 0
      else
        (let differences = (0::nat);
             differences = (if toLowerCase (status tree) \<noteq> ''alive''
                            then differences + 1 else differences);
             differences = (if toLowerCase (sidewalk tree) \<noteq> ''nodamage''
                            then differences + 1 else differences);
             differences = (if problems tree \<noteq> [] \<and>
                               toLowerCase (trim (problems tree)) \<noteq> ''none''
                            then differences + 1 else differences)
         in if differences = 0 then 3 else if differences = 1 then 2 else 1))"

definition normalizeTreeFriendsScore :: "jsnum \<Rightarrow> real" where
  "normalizeTreeFriendsScore score =
     (case score of Fin s \<Rightarrow> (clamp s 0 10 / 10) * 4 | _ \<Rightarrow> 0)"

definition normalizeAffordabilityScore :: "jsnum option \<Rightarrow> real" where
  "normalizeAffordabilityScore v =
     (case v of Some (Fin a) \<Rightarrow> (clamp a 0 10 / 10) * 4 | _ \<Rightarrow> 0)"

definition getTreeFriendsScore :: "jsnum \<Rightarrow> real" where
  "getTreeFriendsScore averageDistance =
     (case averageDistance of
        Fin a \<Rightarrow>
          if a \<le> 0 then 10
          else if a < 2 then 10
          else clamp (10 - 0.12 * (a - 2)) 0 10
      | _ \<Rightarrow> 10)"

text \<open>
  \<^verbatim>\<open>assignAccessibilityScores\<close> writes the composite score into every tree of the array;
  the model returns the updated array.
\<close>

definition assignAccessibilityScores :: "TreeRecord list \<Rightarrow> TreeRecord list" where
  "assignAccessibilityScores trees =
     map (\<lambda>tree.
        let normalizedTreeFriends = normalizeTreeFriendsScore (treeFriendsScore tree);
            normalizedAffordability = normalizeAffordabilityScore (affordabilityScore tree);
            healthScore = calculateHealthScore tree;
            totalScore = normalizedTreeFriends + normalizedAffordability + real healthScore;
            isDead = (toLowerCase (trim (status tree)) = ''dead'')
        in tree\<lparr>accessibilityScore := Some (Fin (if isDead then 0 else totalScore))\<rparr>) trees"

section \<open>Area interpolator\<close>

text \<open>
  \<^verbatim>\<open>matches.sort((a, b) => a.distance - b.distance)\<close> on finite distances is the stable
  sort by distance. One step of the \<^verbatim>\<open>forEach\<close>: a candidate is appended while the
  working set is below \<open>limit\<close>, and replaces the farthest kept match afterwards only
  when it is strictly closer.
\<close>

definition closestStep ::
  "real \<Rightarrow> real \<Rightarrow> (jsvalue \<rightharpoonup> real) \<Rightarrow> nat \<Rightarrow> NeighborhoodRecord \<Rightarrow>
   NeighborhoodMatch list \<Rightarrow> NeighborhoodMatch list" where
  "closestStep lat lng rentLookup limit nb matches =
     (case getDistanceInMeters lat lng (latitude nb) (longitude nb) of
        Fin dval \<Rightarrow>
          (let match = \<lparr> NeighborhoodMatch.name = NeighborhoodRecord.name nb,
                         distance = dval,
                         rent = getNeighborhoodRent (NeighborhoodRecord.name nb)
                                  rentLookup \<rparr>
           in if length matches < limit
              then sort_key distance (matches @ [match])
              else
                (let farthestDistance =
                       (if matches = [] then PosInf else Fin (distance (last matches)))
                 in if jsLess (Fin dval) farthestDistance
                    then sort_key distance (butlast matches @ [match])
                    else matches))
      | _ \<Rightarrow> matches)"

definition getClosestNeighborhoodMatches ::
  "real \<Rightarrow> real \<Rightarrow> NeighborhoodRecord list \<Rightarrow> (jsvalue \<rightharpoonup> real) \<Rightarrow> nat \<Rightarrow>
   NeighborhoodMatch list" where
  "getClosestNeighborhoodMatches lat lng neighborhoods rentLookup limit =
     (if neighborhoods = [] \<or> limit \<le> 0 then []
      else fold (closestStep lat lng rentLookup limit) neighborhoods [])"

definition NEAREST_NEIGHBOR_COUNT :: nat where
  "NEAREST_NEIGHBOR_COUNT = 3"

section \<open>Spatial index\<close>

text \<open>
  \<^verbatim>\<open>buildKdTree\<close>: the comparator of the sort is the difference of two finite
  coordinates, so the sort is the stable sort by that coordinate.
\<close>

function buildKdTree :: "IndexedTreePoint list \<Rightarrow> nat \<Rightarrow> KdTreeNode" where
  "buildKdTree [] depth = Null"
| "buildKdTree (p # ps) depth =
     (let axis = depth mod 2;
          sorted = sort_key (\<lambda>a. if axis = 0 then latitude a else longitude a) (p # ps);
          medianIndex = length sorted div 2;
          medianPoint = sorted ! medianIndex
      in Node medianPoint axis
           (buildKdTree (take medianIndex sorted) (depth + 1))
           (buildKdTree (drop (medianIndex + 1) sorted) (depth + 1)))"
  by pat_completeness auto
termination
  by (relation "measure (\<lambda>(points, depth). length points)") auto

text \<open>
  \<^verbatim>\<open>addDistance\<close>: the bounded result set, kept sorted and cut back to \<open>k\<close> entries.
\<close>

definition addDistance :: "nat \<Rightarrow> jsnum \<Rightarrow> real list \<Rightarrow> real list" where
  "addDistance k dval distances =
     (case dval of
        Fin d \<Rightarrow>
          (let pushed = sort (distances @ [d])
           in if k < length pushed then butlast pushed else pushed)
      | _ \<Rightarrow> distances)"

text \<open>
  \<^verbatim>\<open>search\<close>: the closure of \<^verbatim>\<open>findKNearestNeighborDistances\<close>, with the array
  \<open>distances\<close> it mutates passed in and returned.
\<close>

fun search :: "IndexedTreePoint \<Rightarrow> nat \<Rightarrow> KdTreeNode \<Rightarrow> real list \<Rightarrow> real list" where
  "search target k Null distances = distances"
| "search target k (Node point axis left right) distances =
     (let targetValue = (if axis = 0 then latitude target else longitude target);
          nodeValue = (if axis = 0 then latitude point else longitude point);
          distances =
            (if targetValue < nodeValue then search target k left distances
             else search target k right distances);
          distances =
            (if index point \<noteq> index target
             then addDistance k
                    (getDistanceInMeters (latitude target) (longitude target)
                       (latitude point) (longitude point)) distances
             else distances);
          deltaDegrees = \<bar>targetValue - nodeValue\<bar>;
          axisDistanceMeters = getAxisDistanceMeters deltaDegrees axis (latitude target);
          currentMaxDistance = (if distances = [] then PosInf else Fin (last distances))
      in if length distances < k \<or> jsLess (Fin axisDistanceMeters) currentMaxDistance
         then (if targetValue < nodeValue then search target k right distances
               else search target k left distances)
         else distances)"

definition findKNearestNeighborDistances ::
  "KdTreeNode \<Rightarrow> IndexedTreePoint \<Rightarrow> nat \<Rightarrow> real list" where
  "findKNearestNeighborDistances rootNode target k = search target k rootNode []"

text \<open>
  The reference of the specification: the \<open>k\<close> smallest geodesic distances from the
  target to every other point, by a scan over all points.
\<close>

definition bruteForceDistances :: "IndexedTreePoint list \<Rightarrow> IndexedTreePoint \<Rightarrow> nat \<Rightarrow> real list" where
  "bruteForceDistances points target k =
     take k (sort (concat (map (\<lambda>p.
        if index p \<noteq> index target
        then (case getDistanceInMeters (latitude target) (longitude target)
                     (latitude p) (longitude p) of
                Fin d \<Rightarrow> [d] | _ \<Rightarrow> [])
        else []) points)))"

section \<open>Record normaliser\<close>

text \<open>
  \<^verbatim>\<open>assignTreeFriendsScores\<close>: the points (\<open>treePoints\<close>, the \<^verbatim>\<open>trees.map\<close> of the
  source) are the trees with their positions; the score of each point is written into
  its tree, which leaves the coordinates the index was built from untouched.
\<close>

definition treePoints :: "TreeRecord list \<Rightarrow> IndexedTreePoint list" where
  "treePoints trees =
     map (\<lambda>(tree, i). \<lparr> latitude = latitude tree, longitude = longitude tree, index = i \<rparr>)
         (zip trees [0..<length trees])"

definition assignTreeFriendsScores :: "TreeRecord list \<Rightarrow> nat \<Rightarrow> TreeRecord list" where
  "assignTreeFriendsScores trees neighborCount =
     (if trees = [] then trees
      else
        (let points = treePoints trees;
             kdTreeRoot = buildKdTree points 0
         in case kdTreeRoot of
              Null \<Rightarrow> trees
            | Node _ _ _ _ \<Rightarrow>
                map (\<lambda>(tree, pt).
                      let neighborDistances =
                            findKNearestNeighborDistances kdTreeRoot pt neighborCount;
                          averageDistance =
                            (if 0 < length neighborDistances
                             then Fin (foldl (+) 0 neighborDistances /
                                       real (length neighborDistances))
                             else PosInf)
                      in tree\<lparr>treeFriendsScore := Fin (getTreeFriendsScore averageDistance)\<rparr>)
                    (zip trees points)))"

text \<open>
  The body of the \<^verbatim>\<open>map\<close> in \<^verbatim>\<open>parseTreeData\<close>: one data line becomes a tree, or
  \<^verbatim>\<open>undefined\<close> (\<open>None\<close>) when a coordinate is not finite.
\<close>

definition parseTreeRow ::
  "(string \<Rightarrow> jsnum) \<Rightarrow> NeighborhoodRecord list \<Rightarrow> (jsvalue \<rightharpoonup> real) \<Rightarrow> string list \<Rightarrow>
   string \<Rightarrow> TreeRecord option" where
  "parseTreeRow num neighborhoods rentLookup headers line =
     (let values = parseCsvLine line;
          row = rowOf headers values
      in case (toNumber num (row ''latitude''), toNumber num (row ''longitude'')) of
           (Fin lat, Fin lng) \<Rightarrow>
             (let nearestMatches =
                    getClosestNeighborhoodMatches lat lng neighborhoods rentLookup
                      NEAREST_NEIGHBOR_COUNT;
                  closestNeighborhood =
                    (case nearestMatches of
                       [] \<Rightarrow> ''Unknown'' | m # _ \<Rightarrow> NeighborhoodMatch.name m);
                  expectedRent = calculateExpectedRent nearestMatches;
                  affordability =
                    (case expectedRent of
                       Some r \<Rightarrow> Some (Fin (calculateAffordabilityScore (Fin r)))
                     | None \<Rightarrow> None);
                  idText = trim (case row ''tree_id'' of Some v \<Rightarrow> v | None \<Rightarrow> []);
                  speciesText =
                    toLowerCase (trim (case row ''spc_common'' of Some v \<Rightarrow> v | None \<Rightarrow> []))
              in Some \<lparr> latitude = lat, longitude = lng,
                        treeId = (if idText = [] then ''unknown'' else idText),
                        status = (case row ''status'' of Some v \<Rightarrow> trim v | None \<Rightarrow> []),
                        sidewalk = (case row ''sidewalk'' of Some v \<Rightarrow> trim v | None \<Rightarrow> []),
                        problems = (case row ''problems'' of Some v \<Rightarrow> trim v | None \<Rightarrow> []),
                        neighborhood = closestNeighborhood,
                        species = (if speciesText = [] then ''unknown'' else speciesText),
                        treeFriendsScore = Fin 0,
                        affordabilityScore = affordability,
                        accessibilityScore = None \<rparr>)
         | _ \<Rightarrow> None)"

definition parseTreeData ::
  "(string \<Rightarrow> jsnum) \<Rightarrow> string \<Rightarrow> NeighborhoodRecord list \<Rightarrow> (jsvalue \<rightharpoonup> real) \<Rightarrow>
   TreeRecord list" where
  "parseTreeData num csvData neighborhoods rentLookup =
     (let lines = csvLines csvData
      in if length lines \<le> 1 then []
         else
           (let headers = parseCsvLine (hd lines);
                parsedTrees =
                  List.map_filter (parseTreeRow num neighborhoods rentLookup headers)
                    (tl lines)
            in assignAccessibilityScores (assignTreeFriendsScores parsedTrees 5)))"

definition parseNeighborhoodRow ::
  "(string \<Rightarrow> jsnum) \<Rightarrow> string list \<Rightarrow> string \<Rightarrow> NeighborhoodRecord option" where
  "parseNeighborhoodRow num headers line =
     (let values = parseCsvLine line;
          row = rowOf headers values
      in case (toNumber num (row ''latitude''), toNumber num (row ''longitude'')) of
           (Fin lat, Fin lng) \<Rightarrow>
             Some \<lparr> latitude = lat, longitude = lng,
                    name = normalizeNeighborhoodName
                             (case row ''name'' of Some v \<Rightarrow> v | None \<Rightarrow> []) \<rparr>
         | _ \<Rightarrow> None)"

definition parseNeighborhoodData :: "(string \<Rightarrow> jsnum) \<Rightarrow> string \<Rightarrow> NeighborhoodRecord list" where
  "parseNeighborhoodData num csvData =
     (let lines = csvLines csvData
      in if length lines \<le> 1 then []
         else
           (let headers = parseCsvLine (hd lines)
            in List.map_filter (parseNeighborhoodRow num headers) (tl lines)))"

definition parseRentData :: "(string \<Rightarrow> jsnum) \<Rightarrow> string \<Rightarrow> (jsvalue \<rightharpoonup> real)" where
  "parseRentData num csvData =
     (let lines = csvLines csvData
      in if length lines \<le> 1 then Map.empty
         else
           (let headers = parseCsvLine (hd lines)
            in case (findIndex (\<lambda>header. toLowerCase header = ''areaname'') headers,
                     findIndex (\<lambda>header. toLowerCase header = ''rent'') headers) of
                 (Some nameIndex, Some rentIndex) \<Rightarrow>
                   fold (\<lambda>line rentLookup.
                           let values = parseCsvLine line;
                               key = normalizeRentKey
                                       (if nameIndex < length values
                                        then values ! nameIndex else []);
                               rentValue = toNumber num
                                       (if rentIndex < length values
                                        then Some (values ! rentIndex) else None)
                           in case rentValue of
                                Fin r \<Rightarrow> if key = JSString [] then rentLookup
                                         else rentLookup(key \<mapsto> r)
                              | _ \<Rightarrow> rentLookup)
                        (tl lines) Map.empty
               | _ \<Rightarrow> Map.empty))"

text \<open>
  The number of mismatches against the three healthy baselines, in the words of the
  specification (no trimming).
\<close>

definition specMismatches :: "TreeRecord \<Rightarrow> nat" where
  "specMismatches t =
     (if toLowerCase (status t) \<noteq> ''alive'' then 1 else 0) +
     (if toLowerCase (sidewalk t) \<noteq> ''nodamage'' then 1 else 0) +
     (if problems t \<noteq> [] \<and> toLowerCase (problems t) \<noteq> ''none'' then 1 else 0)"

text \<open>
  White space in normal form: the only white-space character is the space, never at the
  side of another one. (A notion of the proofs, not of the source.)
\<close>

fun normalWs :: "string \<Rightarrow> bool" where
  "normalWs [] = True"
| "normalWs (c # cs) =
     ((isWhiteSpace c \<longrightarrow> c = CHR '' '' \<and> (cs = [] \<or> \<not> isWhiteSpace (hd cs))) \<and> normalWs cs)"

text \<open>
  The points held by an index, and the finite geodesic distances from a target to the
  points of a list other than the target itself. (Notions of the proofs.)
\<close>

fun nodePoints :: "KdTreeNode \<Rightarrow> IndexedTreePoint list" where
  "nodePoints Null = []"
| "nodePoints (Node p a l r) = p # nodePoints l @ nodePoints r"

definition otherDistances :: "IndexedTreePoint \<Rightarrow> IndexedTreePoint list \<Rightarrow> real set" where
  "otherDistances t ps =
     {d. \<exists>p \<in> set ps. index p \<noteq> index t \<and>
          getDistanceInMeters (latitude t) (longitude t) (latitude p) (longitude p) = Fin d}"

text \<open>
  The list of those distances, and the condition under which pruning is sound for a
  target: at every node, the axis distance that the query compares with its worst kept
  distance is at most every finite distance from the target to the points of the far
  child. (Notions of the proofs.)
\<close>

definition distancesFrom :: "IndexedTreePoint \<Rightarrow> IndexedTreePoint list \<Rightarrow> real list" where
  "distancesFrom t ps =
     concat (map (\<lambda>p.
        if index p \<noteq> index t
        then (case getDistanceInMeters (latitude t) (longitude t) (latitude p) (longitude p) of
                Fin d \<Rightarrow> [d] | _ \<Rightarrow> [])
        else []) ps)"

fun lowerBounded :: "IndexedTreePoint \<Rightarrow> KdTreeNode \<Rightarrow> bool" where
  "lowerBounded t Null = True"
| "lowerBounded t (Node p a l r) =
     (let targetValue = (if a = 0 then latitude t else longitude t);
          nodeValue = (if a = 0 then latitude p else longitude p);
          farNode = (if targetValue < nodeValue then r else l)
      in (\<forall>d \<in> set (distancesFrom t (nodePoints farNode)).
            getAxisDistanceMeters \<bar>targetValue - nodeValue\<bar> a (latitude t) \<le> d) \<and>
         lowerBounded t l \<and> lowerBounded t r)"

text \<open>
  Three properties of a tree record, used to state what the pipeline establishes: its
  scores are within their bounds, its text fields are trimmed, and its coordinates are
  what the coordinates of a data line convert to.
\<close>

definition boundedScores :: "TreeRecord \<Rightarrow> bool" where
  "boundedScores t =
     ((\<exists>d. treeFriendsScore t = Fin d \<and> 0 \<le> d \<and> d \<le> 10) \<and>
      (affordabilityScore t = None \<or>
         (\<exists>a. affordabilityScore t = Some (Fin a) \<and> 0 \<le> a \<and> a \<le> 10)) \<and>
      (accessibilityScore t = None \<or>
         (\<exists>c. accessibilityScore t = Some (Fin c) \<and> 0 \<le> c \<and> c \<le> 11)))"

definition trimmedFields :: "TreeRecord \<Rightarrow> bool" where
  "trimmedFields t =
     (trim (status t) = status t \<and> trim (sidewalk t) = sidewalk t \<and>
      trim (problems t) = problems t)"

definition fromLine :: "(string \<Rightarrow> jsnum) \<Rightarrow> string list \<Rightarrow> string \<Rightarrow> TreeRecord \<Rightarrow> bool" where
  "fromLine num headers line t =
     (toNumber num (rowOf headers (parseCsvLine line) ''latitude'') = Fin (latitude t) \<and>
      toNumber num (rowOf headers (parseCsvLine line) ''longitude'') = Fin (longitude t))"

section \<open>Example inputs\<close>

definition exampleTree :: TreeRecord where
  "exampleTree =
     \<lparr> latitude = 40.7, longitude = -73.9, treeId = ''1'', status = ''Alive'',
       sidewalk = ''Damage'', problems = ''None'', neighborhood = ''Unknown'',
       species = ''oak'', treeFriendsScore = Fin 10, affordabilityScore = Some (Fin 5),
       accessibilityScore = None \<rparr>"

definition deadTree :: TreeRecord where
  "deadTree = exampleTree\<lparr>status := ''Dead''\<rparr>"

definition stumpTree :: TreeRecord where
  "stumpTree = exampleTree\<lparr>status := ''Stump''\<rparr>"

definition exampleMatches :: "NeighborhoodMatch list" where
  "exampleMatches =
     [\<lparr> NeighborhoodMatch.name = ''a'', distance = 100, rent = Some 3000 \<rparr>,
      \<lparr> NeighborhoodMatch.name = ''b'', distance = 200, rent = Some 4000 \<rparr>,
      \<lparr> NeighborhoodMatch.name = ''c'', distance = 500, rent = Some 5000 \<rparr>]"

text \<open>
  The line \<^verbatim>\<open>"a,""b""",c\<close>, with a quoted field that holds a comma and two doubled
  quotes.
\<close>

definition quotedLine :: string where
  "quotedLine =
     [CHR 0x22, CHR ''a'', CHR '','', CHR 0x22, CHR 0x22, CHR ''b'', CHR 0x22, CHR 0x22,
      CHR 0x22, CHR '','', CHR ''c'']"

text \<open>
  A text of three lines, the last with a latitude that is not a number, and a conversion
  of strings to numbers that knows "1" and "2".
\<close>

definition exampleNumber :: "string \<Rightarrow> jsnum" where
  "exampleNumber s = (if s = ''1'' then Fin 1 else if s = ''2'' then Fin 2 else NaN)"

definition exampleCsv :: string where
  "exampleCsv =
     ''latitude,longitude,status'' @ [CHR 0x0A] @ ''1,2,Alive'' @ [CHR 0x0D, CHR 0x0A] @
     ''x,2,Dead'' @ [CHR 0x0A]"

definition exampleParsed :: TreeRecord where
  "exampleParsed =
     \<lparr> latitude = 1, longitude = 2, treeId = ''unknown'', status = ''Alive'',
       sidewalk = [], problems = [], neighborhood = ''Unknown'',
       species = ''unknown'', treeFriendsScore = Fin 10, affordabilityScore = None,
       accessibilityScore = Some (Fin 6) \<rparr>"

text \<open>
  Seven trees on the equator, at the longitudes -1.0002, -1, 1.0005, 0, 0.1, 0.2 and 0.3
  degrees, and the length of one degree of a great circle on the sphere of the haversine
  formula, about 111194.93 metres.
\<close>

definition metresPerDegree :: real where
  "metresPerDegree = 6371000 * pi / 180"

definition equatorTree :: "real \<Rightarrow> TreeRecord" where
  "equatorTree lng = exampleTree\<lparr>latitude := 0, longitude := lng\<rparr>"

definition equatorTrees :: "TreeRecord list" where
  "equatorTrees = map equatorTree [-1.0002, -1, 1.0005, 0, 0.1, 0.2, 0.3]"

definition equatorPoint :: "real \<Rightarrow> nat \<Rightarrow> IndexedTreePoint" where
  "equatorPoint lng i = \<lparr> latitude = 0, longitude = lng, index = i \<rparr>"

text \<open>
  The same seven trees at the scale of a street, the longitudes divided by 2000 (the
  nearest neighbours are 5.6 to 55.6 metres away), and the density score in the words of
  the specification: the score of the average of the five smallest geodesic distances
  to the other points.
\<close>

definition streetTrees :: "TreeRecord list" where
  "streetTrees =
     map equatorTree [-0.0005001, -0.0005, 0.00050025, 0, 0.00005, 0.0001, 0.00015]"

definition specDensityScore :: "TreeRecord list \<Rightarrow> nat \<Rightarrow> real" where
  "specDensityScore trees i =
     (let nearest = bruteForceDistances (treePoints trees) (treePoints trees ! i) 5
      in if nearest = [] then 10
         else
           (let average = sum_list nearest / real (length nearest)
            in if average \<le> 0 \<or> average < 2 then 10
               else clamp (10 - 0.12 * (average - 2)) 0 10))"

section \<open>Facts about strings\<close>

lemma lowerChar_cases:
  "(c \<in> set upperLetters \<and> lowerChar c \<in> set lowerLetters) \<or>
   (c \<notin> set upperLetters \<and> lowerChar c = c)"
proof (cases "map_of (zip upperLetters lowerLetters) c")
  case None
  then have "c \<notin> fst ` set (zip upperLetters lowerLetters)"
    by (simp add: map_of_eq_None_iff)
  moreover have "map fst (zip upperLetters lowerLetters) = upperLetters"
    by (simp add: upperLetters_def lowerLetters_def)
  ultimately have "c \<notin> set upperLetters"
    by (metis set_map)
  with None show ?thesis
    by (simp add: lowerChar_def)
next
  case (Some l)
  then have "(c, l) \<in> set (zip upperLetters lowerLetters)"
    by (rule map_of_SomeD)
  then have "c \<in> set upperLetters" "l \<in> set lowerLetters"
    by (auto dest: set_zip_leftD set_zip_rightD)
  with Some show ?thesis
    by (simp add: lowerChar_def)
qed

lemma lower_not_upper: "c \<in> set lowerLetters \<Longrightarrow> c \<notin> set upperLetters"
  by (auto simp: lowerLetters_def upperLetters_def)

lemma lower_not_ws: "c \<in> set lowerLetters \<Longrightarrow> \<not> isWhiteSpace c"
  by (auto simp: lowerLetters_def isWhiteSpace_def)

lemma upper_not_ws: "c \<in> set upperLetters \<Longrightarrow> \<not> isWhiteSpace c"
  by (auto simp: upperLetters_def isWhiteSpace_def)

lemma lowerChar_idem: "lowerChar (lowerChar c) = lowerChar c"
  using lowerChar_cases[of c] lowerChar_cases[of "lowerChar c"] lower_not_upper by metis

lemma lowerChar_ws: "isWhiteSpace (lowerChar c) = isWhiteSpace c"
  using lowerChar_cases[of c] lower_not_ws upper_not_ws by metis

lemma trim_no_ws: "\<forall>c \<in> set s. \<not> isWhiteSpace c \<Longrightarrow> trim s = s"
proof -
  assume h: "\<forall>c \<in> set s. \<not> isWhiteSpace c"
  have a: "dropWhile isWhiteSpace s = s"
    using h by (cases s) auto
  have "dropWhile isWhiteSpace (rev s) = rev s"
    using h by (cases "rev s") auto
  with a show ?thesis
    by (simp add: trim_def)
qed

lemma lower_letters_no_ws:
  assumes "toLowerCase s = w" and "set w \<subseteq> set lowerLetters"
  shows "\<forall>c \<in> set s. \<not> isWhiteSpace c"
proof
  fix c assume "c \<in> set s"
  then have "lowerChar c \<in> set w"
    using assms(1) by (auto simp: toLowerCase_def)
  then have "\<not> isWhiteSpace (lowerChar c)"
    using assms(2) lower_not_ws by blast
  then show "\<not> isWhiteSpace c"
    by (simp add: lowerChar_ws)
qed

lemma lower_word_trim:
  "toLowerCase s = w \<Longrightarrow> set w \<subseteq> set lowerLetters \<Longrightarrow> trim s = s"
  by (rule trim_no_ws) (rule lower_letters_no_ws)

section \<open>Facts about the scores\<close>

lemma clamp_mono: "a \<le> b \<Longrightarrow> clamp a lo hi \<le> clamp b lo hi"
  by (simp add: clamp_def min_def max_def)

lemma normalizeTreeFriendsScore_range:
  "0 \<le> normalizeTreeFriendsScore s \<and> normalizeTreeFriendsScore s \<le> 4"
  by (cases s) (simp_all add: normalizeTreeFriendsScore_def clamp_def)

lemma normalizeAffordabilityScore_range:
  "0 \<le> normalizeAffordabilityScore v \<and> normalizeAffordabilityScore v \<le> 4"
proof (cases v)
  case None
  then show ?thesis by (simp add: normalizeAffordabilityScore_def)
next
  case (Some a)
  then show ?thesis by (cases a) (simp_all add: normalizeAffordabilityScore_def clamp_def)
qed

lemma healthScore_le_3: "calculateHealthScore t \<le> 3"
  by (simp add: calculateHealthScore_def Let_def)

lemma stump_word: "set ''stump'' \<subseteq> set lowerLetters"
  by (simp add: lowerLetters_def)

lemma dead_word: "set ''dead'' \<subseteq> set lowerLetters"
  by (simp add: lowerLetters_def)

lemmas lower_eval = toLowerCase_def lowerChar_def upperLetters_def lowerLetters_def

lemmas trim_eval = trim_def isWhiteSpace_def

section \<open>Scalar estimate\<close>

text \<open>
  Claim C2. For every list of nearest-area matches, the rent estimate is null when there
  are fewer than three matches or when one of the first three has no rent; when the
  three distances, each floored at zero, sum to zero it is the unweighted mean of the
  three rents; otherwise it is \<open>w1 r1 + w2 r2 + w3 r3\<close> with the weights
  \<open>(d2 + d3 - d1) / (d1 + d2 + d3)\<close>, \<open>(d1 + d3 - d2) / (d1 + d2 + d3)\<close> and
  \<open>(d1 + d2 - d3) / (d1 + d2 + d3)\<close>, used as they are, negative or not.
\<close>

theorem expected_rent_cases:
  "(length ms < 3 \<longrightarrow> calculateExpectedRent ms = None) \<and>
   (3 \<le> length ms \<and>
      (rent (ms ! 0) = None \<or> rent (ms ! 1) = None \<or> rent (ms ! 2) = None)
        \<longrightarrow> calculateExpectedRent ms = None) \<and>
   (3 \<le> length ms \<and>
      rent (ms ! 0) = Some r1 \<and> rent (ms ! 1) = Some r2 \<and> rent (ms ! 2) = Some r3 \<and>
      d1 = max (distance (ms ! 0)) 0 \<and> d2 = max (distance (ms ! 1)) 0 \<and>
      d3 = max (distance (ms ! 2)) 0
        \<longrightarrow> (d1 + d2 + d3 = 0 \<longrightarrow> calculateExpectedRent ms = Some ((r1 + r2 + r3) / 3)) \<and>
            (d1 + d2 + d3 \<noteq> 0 \<longrightarrow>
               calculateExpectedRent ms =
                 Some ((d2 + d3 - d1) / (d1 + d2 + d3) * r1 +
                       (d1 + d3 - d2) / (d1 + d2 + d3) * r2 +
                       (d1 + d2 - d3) / (d1 + d2 + d3) * r3)))"
proof (cases ms)
  case Nil
  then show ?thesis by simp
next
  case (Cons x1 ms1)
  note c1 = this
  show ?thesis
  proof (cases ms1)
    case Nil
    with c1 show ?thesis by simp
  next
    case (Cons x2 ms2)
    note c2 = this
    show ?thesis
    proof (cases ms2)
      case Nil
      with c1 c2 show ?thesis by simp
    next
      case (Cons x3 rest)
      with c1 c2 have ms: "ms = x1 # x2 # x3 # rest" by simp
      show ?thesis
        unfolding ms by (auto simp: Let_def split: option.splits)
    qed
  qed
qed

text \<open>
  At distances 100, 200 and 500 the third weight is \<open>-1/4\<close>, and the estimate
  \<open>3/4 * 3000 + 1/2 * 4000 - 1/4 * 5000\<close> is 3000.
\<close>

theorem expected_rent_cases_witness:
  "3 \<le> length exampleMatches \<and>
   (100 + 200 - 500) / (100 + 200 + 500) = (- 1 / 4 :: real) \<and>
   calculateExpectedRent exampleMatches = Some 3000 \<and>
   calculateExpectedRent (take 2 exampleMatches) = None"
proof -
  have l: "3 \<le> length exampleMatches"
    by (simp add: exampleMatches_def)
  have a: "calculateExpectedRent exampleMatches = Some 3000"
    using expected_rent_cases[of exampleMatches 3000 4000 5000 100 200 500] l
    by (simp add: exampleMatches_def)
  have b: "calculateExpectedRent (take 2 exampleMatches) = None"
    using expected_rent_cases[of "take 2 exampleMatches"]
    by (simp add: exampleMatches_def)
  from l a b show ?thesis by simp
qed

section \<open>Scalar score\<close>

text \<open>
  Claim C6, as stated: for every pair of rent estimates \<open>r' < r\<close> the score of \<open>r'\<close>
  is at least the score of \<open>r\<close>. It fails where the smaller estimate is zero: the
  guard of the source gives a zero estimate the score 0, below the score 10 of the
  estimate 1000.
\<close>

theorem affordability_not_monotone_at_zero:
  "(0::real) < 1000 \<and>
   calculateAffordabilityScore (Fin 0) < calculateAffordabilityScore (Fin 1000)"
  by (simp add: calculateAffordabilityScore_def clamp_def)

lemma affordability_nonpositive: "x \<le> 0 \<Longrightarrow> calculateAffordabilityScore (Fin x) = 0"
proof -
  assume x: "x \<le> 0"
  then have "36370 / x \<le> 0" by (simp add: divide_le_0_iff)
  moreover have "(0::real) \<le> 2.737" by simp
  ultimately have "36370 / x - 2.737 \<le> 0" by linarith
  then have "max (36370 / x - 2.737) 0 = 0" by (rule max_absorb2)
  then show ?thesis by (simp add: calculateAffordabilityScore_def clamp_def)
qed

lemma affordability_positive:
  "0 < x \<Longrightarrow> calculateAffordabilityScore (Fin x) = clamp (36370 / x - 2.737) 0 10"
  by (simp add: calculateAffordabilityScore_def)

lemma affordability_zero_iff:
  assumes "0 < x"
  shows "calculateAffordabilityScore (Fin x) \<le> 0 \<longleftrightarrow> 36370 \<le> 2.737 * x"
proof -
  have "36370 / x - 2.737 \<le> 0 \<longleftrightarrow> 36370 / x \<le> 2.737" by linarith
  also have "\<dots> \<longleftrightarrow> 36370 \<le> 2.737 * x"
    using assms by (simp add: pos_divide_le_eq)
  finally have e: "36370 / x - 2.737 \<le> 0 \<longleftrightarrow> 36370 \<le> 2.737 * x" .
  have "clamp (36370 / x - 2.737) 0 10 \<le> 0 \<longleftrightarrow> 36370 / x - 2.737 \<le> 0"
    by (simp add: clamp_def min_def max_def)
  with e assms show ?thesis by (simp only: affordability_positive)
qed

text \<open>
  Claim C6, amended: for every pair of rent estimates \<open>r' < r\<close>, the score of \<open>r'\<close> is at
  least the score of \<open>r\<close>, except when \<open>r'\<close> is at most zero and \<open>r\<close> is positive and
  below \<open>36370 / 2.737\<close> (there the score of \<open>r'\<close> is 0 and that of \<open>r\<close> is positive). The
  score is 0 on the estimates at most zero and on the estimates that are not finite, and
  \<open>36370 / estimate - 2.737\<close> clamped to [0,10] on the positive ones.
\<close>

theorem affordability_monotone:
  "(r' < r \<longrightarrow>
      (calculateAffordabilityScore (Fin r) \<le> calculateAffordabilityScore (Fin r') \<longleftrightarrow>
         0 < r' \<or> r \<le> 0 \<or> 36370 \<le> 2.737 * r)) \<and>
   (x \<le> 0 \<longrightarrow> calculateAffordabilityScore (Fin x) = 0) \<and>
   (0 < x \<longrightarrow> calculateAffordabilityScore (Fin x) = clamp (36370 / x - 2.737) 0 10) \<and>
   calculateAffordabilityScore PosInf = 0 \<and> calculateAffordabilityScore NegInf = 0 \<and>
   calculateAffordabilityScore NaN = 0"
proof (intro conjI impI)
  assume lt: "r' < r"
  show "calculateAffordabilityScore (Fin r) \<le> calculateAffordabilityScore (Fin r') \<longleftrightarrow>
         0 < r' \<or> r \<le> 0 \<or> 36370 \<le> 2.737 * r"
  proof (cases "0 < r'")
    case True
    then have pos: "0 < r" using lt by simp
    have "36370 / r \<le> 36370 / r'"
      using True lt by (simp add: frac_le)
    then have "clamp (36370 / r - 2.737) 0 10 \<le> clamp (36370 / r' - 2.737) 0 10"
      by (intro clamp_mono) simp
    then show ?thesis
      using True pos by (simp add: affordability_positive)
  next
    case False
    then have z': "calculateAffordabilityScore (Fin r') = 0"
      by (intro affordability_nonpositive) simp
    show ?thesis
    proof (cases "r \<le> 0")
      case True
      then show ?thesis using z' by (simp add: affordability_nonpositive)
    next
      case nr: False
      then have "0 < r" by simp
      from affordability_zero_iff[OF this] z' False nr show ?thesis by simp
    qed
  qed
qed (simp_all add: affordability_nonpositive affordability_positive,
     simp_all add: calculateAffordabilityScore_def)

text \<open>
  The estimates 3000 and 4000 are in order; so are 0 and 20000, both of score 0; the
  estimate -5 has score 0; 0 and 1000 are the exception.
\<close>

theorem affordability_monotone_witness:
  "(3000::real) < 4000 \<and> (0::real) < 3000 \<and>
   calculateAffordabilityScore (Fin 4000) \<le> calculateAffordabilityScore (Fin 3000) \<and>
   (0::real) < 20000 \<and> (36370::real) \<le> 2.737 * 20000 \<and>
   calculateAffordabilityScore (Fin 20000) \<le> calculateAffordabilityScore (Fin 0) \<and>
   (-5::real) \<le> 0 \<and> calculateAffordabilityScore (Fin (-5)) = 0 \<and>
   \<not> calculateAffordabilityScore (Fin 1000) \<le> calculateAffordabilityScore (Fin 0)"
  using affordability_monotone[of 3000 4000 "-5"] affordability_monotone[of 0 20000 "-5"]
    affordability_monotone[of 0 1000 "-5"]
  by simp

section \<open>Health score\<close>

text \<open>
  Claim C5. For every point (a tree as the parser builds it, its problems text trimmed),
  the health score is one of 0, 1, 2 and 3: status "stump" or "dead", compared without
  regard to case, yields 0; otherwise, counting the mismatches status other than
  "alive", sidewalk other than "nodamage", and problems non-empty and other than "none",
  no mismatch yields 3, exactly one yields 2, and two or more yield 1.
\<close>

theorem health_score_cases:
  assumes "trim (problems t) = problems t"
  shows "calculateHealthScore t \<in> {0, 1, 2, 3} \<and>
         (toLowerCase (status t) = ''stump'' \<or> toLowerCase (status t) = ''dead''
            \<longrightarrow> calculateHealthScore t = 0) \<and>
         (toLowerCase (status t) \<noteq> ''stump'' \<and> toLowerCase (status t) \<noteq> ''dead''
            \<longrightarrow> (specMismatches t = 0 \<longrightarrow> calculateHealthScore t = 3) \<and>
                (specMismatches t = 1 \<longrightarrow> calculateHealthScore t = 2) \<and>
                (2 \<le> specMismatches t \<longrightarrow> calculateHealthScore t = 1))"
  using assms by (simp add: calculateHealthScore_def specMismatches_def Let_def)

theorem health_score_cases_witness:
  "trim (problems exampleTree) = problems exampleTree \<and> specMismatches exampleTree = 1 \<and>
   calculateHealthScore exampleTree = 2 \<and> calculateHealthScore stumpTree = 0"
proof -
  have h: "trim (problems exampleTree) = problems exampleTree"
    by (simp add: exampleTree_def trim_eval)
  have m: "specMismatches exampleTree = 1"
    by (simp add: exampleTree_def specMismatches_def lower_eval)
  have s: "toLowerCase (status exampleTree) \<noteq> ''stump'' \<and>
           toLowerCase (status exampleTree) \<noteq> ''dead''"
    by (simp add: exampleTree_def lower_eval)
  have h': "trim (problems stumpTree) = problems stumpTree"
    by (simp add: stumpTree_def exampleTree_def trim_eval)
  have s': "toLowerCase (status stumpTree) = ''stump''"
    by (simp add: stumpTree_def lower_eval)
  from health_score_cases[OF h] health_score_cases[OF h'] s m s' show ?thesis
    using h by blast
qed

section \<open>Composite score\<close>

text \<open>
  Claim C4. For every point: if its status is "dead", compared without regard to case,
  the composite score is 0 and the health score is 0, whatever its density and scalar
  scores; otherwise (for a tree as the pipeline builds it: status trimmed, density score
  \<open>d\<close> in [0,10]) the composite score is \<open>d / 10 * 4\<close> plus the clamped scalar score
  rescaled in the same way (0 for a null score) plus the health score, it lies in
  [0,11], and nothing clamps it.
\<close>

theorem composite_score:
  assumes "i < length trees"
  shows "(toLowerCase (status (trees ! i)) = ''dead'' \<longrightarrow>
            accessibilityScore (assignAccessibilityScores trees ! i) = Some (Fin 0) \<and>
            calculateHealthScore (trees ! i) = 0) \<and>
         (toLowerCase (status (trees ! i)) \<noteq> ''dead'' \<and>
          trim (status (trees ! i)) = status (trees ! i) \<and>
          treeFriendsScore (trees ! i) = Fin d \<and> 0 \<le> d \<and> d \<le> 10 \<longrightarrow>
            (\<exists>c. accessibilityScore (assignAccessibilityScores trees ! i) = Some (Fin c) \<and>
                 c = (d / 10) * 4
                     + (case affordabilityScore (trees ! i) of
                          Some (Fin a) \<Rightarrow> (clamp a 0 10 / 10) * 4 | _ \<Rightarrow> 0)
                     + real (calculateHealthScore (trees ! i)) \<and>
                 0 \<le> c \<and> c \<le> 11))"
proof (intro conjI impI)
  let ?t = "trees ! i"
  assume d: "toLowerCase (status ?t) = ''dead''"
  have tr: "trim (status ?t) = status ?t"
    using d dead_word by (rule lower_word_trim)
  show "accessibilityScore (assignAccessibilityScores trees ! i) = Some (Fin 0)"
    using assms d tr by (simp add: assignAccessibilityScores_def Let_def)
  show "calculateHealthScore ?t = 0"
    using d by (simp add: calculateHealthScore_def)
next
  let ?t = "trees ! i"
  assume h: "toLowerCase (status ?t) \<noteq> ''dead'' \<and> trim (status ?t) = status ?t \<and>
             treeFriendsScore ?t = Fin d \<and> 0 \<le> d \<and> d \<le> 10"
  let ?c = "(d / 10) * 4
            + (case affordabilityScore ?t of Some (Fin a) \<Rightarrow> (clamp a 0 10 / 10) * 4 | _ \<Rightarrow> 0)
            + real (calculateHealthScore ?t)"
  have n1: "normalizeTreeFriendsScore (treeFriendsScore ?t) = (d / 10) * 4"
    using h by (simp add: normalizeTreeFriendsScore_def clamp_def)
  have n2: "normalizeAffordabilityScore (affordabilityScore ?t) =
            (case affordabilityScore ?t of Some (Fin a) \<Rightarrow> (clamp a 0 10 / 10) * 4 | _ \<Rightarrow> 0)"
    by (simp add: normalizeAffordabilityScore_def)
  have a: "accessibilityScore (assignAccessibilityScores trees ! i) = Some (Fin ?c)"
    using assms h n1 n2 by (simp add: assignAccessibilityScores_def Let_def)
  have r1: "0 \<le> (d / 10) * 4 \<and> (d / 10) * 4 \<le> 4"
    using h by simp
  have r2: "0 \<le> normalizeAffordabilityScore (affordabilityScore ?t) \<and>
            normalizeAffordabilityScore (affordabilityScore ?t) \<le> 4"
    by (rule normalizeAffordabilityScore_range)
  have r3: "real (calculateHealthScore ?t) \<le> 3"
    using healthScore_le_3[of ?t] by simp
  have "0 \<le> ?c \<and> ?c \<le> 11"
    using r1 r2 r3 unfolding n2 by linarith
  with a show "\<exists>c. accessibilityScore (assignAccessibilityScores trees ! i) = Some (Fin c) \<and>
                 c = ?c \<and> 0 \<le> c \<and> c \<le> 11"
    by blast
qed

text \<open>
  A dead tree and a living one with density score 10, scalar score 5 and health score 2:
  the composite scores are 0 and \<open>4 + 2 + 2\<close>.
\<close>

theorem composite_score_witness:
  "toLowerCase (status deadTree) = ''dead'' \<and>
   toLowerCase (status exampleTree) \<noteq> ''dead'' \<and>
   trim (status exampleTree) = status exampleTree \<and>
   treeFriendsScore exampleTree = Fin 10 \<and>
   accessibilityScore (assignAccessibilityScores [deadTree, exampleTree] ! 0) = Some (Fin 0) \<and>
   calculateHealthScore deadTree = 0 \<and>
   accessibilityScore (assignAccessibilityScores [deadTree, exampleTree] ! 1) = Some (Fin 8)"
proof -
  have d: "toLowerCase (status deadTree) = ''dead''"
    by (simp add: deadTree_def lower_eval)
  have n: "toLowerCase (status exampleTree) \<noteq> ''dead''"
    by (simp add: exampleTree_def lower_eval)
  have t: "trim (status exampleTree) = status exampleTree"
    by (simp add: exampleTree_def trim_eval)
  have f: "treeFriendsScore exampleTree = Fin 10"
    by (simp add: exampleTree_def)
  have a: "affordabilityScore exampleTree = Some (Fin 5)"
    by (simp add: exampleTree_def)
  have h: "calculateHealthScore exampleTree = 2"
    by (simp add: calculateHealthScore_def exampleTree_def lower_eval trim_eval)
  have z: "accessibilityScore (assignAccessibilityScores [deadTree, exampleTree] ! 0) = Some (Fin 0) \<and>
           calculateHealthScore deadTree = 0"
    using composite_score[of 0 "[deadTree, exampleTree]"] d by simp
  have e: "accessibilityScore (assignAccessibilityScores [deadTree, exampleTree] ! 1) = Some (Fin 8)"
    using composite_score[of 1 "[deadTree, exampleTree]" 10] n t f a h
    by (simp add: clamp_def)
  from d n t f z e show ?thesis by simp
qed

text \<open>
  Claim C10. For every point whose status is "stump", compared without regard to case,
  the health score is 0 and the composite score is not forced to 0: it is the sum of the
  normalised density and the normalised scalar contributions, between 0 and 8.
\<close>

theorem stump_composite:
  assumes "i < length trees"
    and "toLowerCase (status (trees ! i)) = ''stump''"
  shows "calculateHealthScore (trees ! i) = 0 \<and>
         accessibilityScore (assignAccessibilityScores trees ! i) =
           Some (Fin (normalizeTreeFriendsScore (treeFriendsScore (trees ! i)) +
                      normalizeAffordabilityScore (affordabilityScore (trees ! i)))) \<and>
         0 \<le> normalizeTreeFriendsScore (treeFriendsScore (trees ! i)) +
              normalizeAffordabilityScore (affordabilityScore (trees ! i)) \<and>
         normalizeTreeFriendsScore (treeFriendsScore (trees ! i)) +
              normalizeAffordabilityScore (affordabilityScore (trees ! i)) \<le> 8"
proof -
  let ?t = "trees ! i"
  have tr: "trim (status ?t) = status ?t"
    using assms(2) stump_word by (rule lower_word_trim)
  have h: "calculateHealthScore ?t = 0"
    using assms(2) by (simp add: calculateHealthScore_def)
  have nd: "toLowerCase (trim (status ?t)) \<noteq> ''dead''"
    using assms(2) tr by simp
  have a: "accessibilityScore (assignAccessibilityScores trees ! i) =
           Some (Fin (normalizeTreeFriendsScore (treeFriendsScore ?t) +
                      normalizeAffordabilityScore (affordabilityScore ?t)))"
    using assms(1) h nd by (simp add: assignAccessibilityScores_def Let_def)
  from h a normalizeTreeFriendsScore_range[of "treeFriendsScore ?t"]
    normalizeAffordabilityScore_range[of "affordabilityScore ?t"]
  show ?thesis by simp
qed

text \<open>A stump with density score 10 and scalar score 5: health 0, composite \<open>4 + 2\<close>.\<close>

theorem stump_composite_witness:
  "toLowerCase (status ([stumpTree] ! 0)) = ''stump'' \<and>
   calculateHealthScore stumpTree = 0 \<and>
   accessibilityScore (assignAccessibilityScores [stumpTree] ! 0) = Some (Fin 6)"
proof -
  have s: "toLowerCase (status ([stumpTree] ! 0)) = ''stump''"
    by (simp add: stumpTree_def lower_eval)
  have n1: "normalizeTreeFriendsScore (treeFriendsScore stumpTree) = 4"
    by (simp add: stumpTree_def exampleTree_def normalizeTreeFriendsScore_def clamp_def)
  have n2: "normalizeAffordabilityScore (affordabilityScore stumpTree) = 2"
    by (simp add: stumpTree_def exampleTree_def normalizeAffordabilityScore_def clamp_def)
  from stump_composite[of 0 "[stumpTree]", OF _ s] s n1 n2 show ?thesis by simp
qed

section \<open>Tabular parser\<close>

lemma csvFields_ne: "csvFields ts \<noteq> []"
  by (induction ts rule: csvFields.induct) auto

lemma csvFields_length: "length (csvFields ts) = Suc (count_list ts Sep)"
  by (induction ts rule: csvFields.induct) (auto simp: csvFields_ne)

lemma parseCsvLoop_tokens:
  "parseCsvLoop line q current result =
     result @ (current @ hd (csvFields (csvTokens q line))) # tl (csvFields (csvTokens q line))"
  by (induction line q current result rule: parseCsvLoop.induct) (simp_all add: csvFields_ne)

lemma parseCsvLine_fields: "parseCsvLine line = csvFields (csvTokens False line)"
  by (simp add: parseCsvLine_def parseCsvLoop_tokens csvFields_ne)

lemma csvTokens_unquoted:
  "CHR 0x22 \<notin> set line \<Longrightarrow>
   count_list (csvTokens False line) Sep = count_list line (CHR '','')"
  by (induction "False" line rule: csvTokens.induct) auto

lemmas csvLines_eval = csvLines_def stripBom_def trim_def isWhiteSpace_def splitLines_def

text \<open>
  Claim C7. For every input text with at most one non-empty line after the byte-order
  mark is stripped and the text trimmed, each of the three parsers produces an empty
  collection. For every line, the fields that \<open>parseCsvLine\<close> produces are those of the
  quoting rules of the specification (a double quote toggles quoted mode, a doubled
  double quote inside quoted mode is one literal quote, a comma outside quoted mode ends
  a field); there is always a final field, so the number of fields is the number of
  separating commas plus one, and a line without quotes and with \<open>n\<close> commas has
  \<open>n + 1\<close> fields.
\<close>

theorem tabular_parser:
  "(length (csvLines csvData) \<le> 1 \<longrightarrow>
      parseTreeData num csvData neighborhoods rentLookup = [] \<and>
      parseNeighborhoodData num csvData = [] \<and>
      parseRentData num csvData = Map.empty) \<and>
   parseCsvLine line = csvFields (csvTokens False line) \<and>
   parseCsvLine line \<noteq> [] \<and>
   length (parseCsvLine line) = count_list (csvTokens False line) Sep + 1 \<and>
   (CHR 0x22 \<notin> set line \<longrightarrow>
      length (parseCsvLine line) = count_list line (CHR '','') + 1)"
  by (simp add: parseTreeData_def parseNeighborhoodData_def parseRentData_def
      parseCsvLine_fields csvFields_ne csvFields_length csvTokens_unquoted)

text \<open>
  A header line alone gives no trees, the line \<^verbatim>\<open>a,b,c\<close> has three fields, and the
  quoted line has two, the first with its comma and its two literal quotes.
\<close>

theorem tabular_parser_witness:
  "length (csvLines ''tree_id,latitude,longitude'') \<le> 1 \<and>
   CHR 0x22 \<notin> set ''a,b,c'' \<and>
   parseTreeData (\<lambda>s. NaN) ''tree_id,latitude,longitude'' [] Map.empty = [] \<and>
   length (parseCsvLine ''a,b,c'') = 3 \<and>
   parseCsvLine quotedLine = [[CHR ''a'', CHR '','', CHR 0x22, CHR ''b'', CHR 0x22], ''c'']"
proof -
  have l: "length (csvLines ''tree_id,latitude,longitude'') \<le> 1"
    by (simp add: csvLines_eval)
  have q: "CHR 0x22 \<notin> set ''a,b,c''"
    by simp
  have f: "parseCsvLine quotedLine =
             [[CHR ''a'', CHR '','', CHR 0x22, CHR ''b'', CHR 0x22], ''c'']"
    using tabular_parser[of "[]" "\<lambda>s. NaN" "[]" Map.empty quotedLine]
    by (simp add: quotedLine_def)
  from tabular_parser[of "''tree_id,latitude,longitude''" "\<lambda>s. NaN" "[]" Map.empty "''a,b,c''"]
    l q f show ?thesis by simp
qed

section \<open>Normalisation of names and rent keys\<close>

lemmas name_eval = normalizeNeighborhoodName_def trim_def isWhiteSpace_def

lemma hd_collapse: "ys = [] \<or> \<not> isWhiteSpace (hd ys) \<Longrightarrow>
   collapseWhiteSpace ys = [] \<or> \<not> isWhiteSpace (hd (collapseWhiteSpace ys))"
  by (cases ys) auto

lemma normalWs_collapse: "normalWs (collapseWhiteSpace x)"
proof (induction x rule: collapseWhiteSpace.induct)
  case 1
  then show ?case by simp
next
  case (2 c cs)
  show ?case
  proof (cases "isWhiteSpace c")
    case True
    have "dropWhile isWhiteSpace cs = [] \<or> \<not> isWhiteSpace (hd (dropWhile isWhiteSpace cs))"
      using hd_dropWhile[of isWhiteSpace cs] by blast
    then have "collapseWhiteSpace (dropWhile isWhiteSpace cs) = [] \<or>
        \<not> isWhiteSpace (hd (collapseWhiteSpace (dropWhile isWhiteSpace cs)))"
      by (rule hd_collapse)
    with True 2 show ?thesis by simp
  next
    case False
    with 2 show ?thesis by simp
  qed
qed

lemma collapse_normal: "normalWs s \<Longrightarrow> collapseWhiteSpace s = s"
proof (induction s rule: collapseWhiteSpace.induct)
  case 1
  then show ?case by simp
next
  case (2 c cs)
  show ?case
  proof (cases "isWhiteSpace c")
    case True
    with 2(3) have c: "c = CHR '' ''" and h: "cs = [] \<or> \<not> isWhiteSpace (hd cs)" and n: "normalWs cs"
      by auto
    from h have d: "dropWhile isWhiteSpace cs = cs" by (cases cs) auto
    from 2(1)[OF True] n d have "collapseWhiteSpace cs = cs" by simp
    with True c d show ?thesis by simp
  next
    case False
    with 2 show ?thesis by simp
  qed
qed

lemma normalWs_prefix: "normalWs (xs @ ys) \<Longrightarrow> normalWs xs"
proof (induction xs)
  case Nil
  then show ?case by simp
next
  case (Cons a xs)
  then show ?case by (cases xs) auto
qed

lemma normalWs_suffix: "normalWs (xs @ ys) \<Longrightarrow> normalWs ys"
  by (induction xs) auto

lemma trim_decomp: "\<exists>pre post. s = pre @ trim s @ post"
proof -
  let ?u = "dropWhile isWhiteSpace s"
  have 1: "s = takeWhile isWhiteSpace s @ ?u" by simp
  have "rev ?u = takeWhile isWhiteSpace (rev ?u) @ dropWhile isWhiteSpace (rev ?u)" by simp
  then have "?u = rev (dropWhile isWhiteSpace (rev ?u)) @ rev (takeWhile isWhiteSpace (rev ?u))"
    by (metis rev_append rev_rev_ident)
  then have "?u = trim s @ rev (takeWhile isWhiteSpace (rev ?u))"
    by (simp add: trim_def)
  with 1 show ?thesis by metis
qed

lemma normalWs_trim: "normalWs s \<Longrightarrow> normalWs (trim s)"
  using trim_decomp[of s] normalWs_prefix normalWs_suffix by metis

lemma trim_ends:
  "trim s = [] \<or> (\<not> isWhiteSpace (hd (trim s)) \<and> \<not> isWhiteSpace (last (trim s)))"
proof (cases "trim s = []")
  case True
  then show ?thesis by simp
next
  case False
  let ?u = "dropWhile isWhiteSpace s"
  let ?d = "dropWhile isWhiteSpace (rev ?u)"
  have t: "trim s = rev ?d" by (simp add: trim_def)
  with False have dne: "?d \<noteq> []" by simp
  then have "\<not> isWhiteSpace (hd ?d)" using hd_dropWhile by blast
  then have l: "\<not> isWhiteSpace (last (trim s))" using dne t by (simp add: last_rev)
  have une: "?u \<noteq> []"
  proof
    assume "?u = []"
    then have "?d = []" by (simp only: rev.simps dropWhile.simps)
    with dne show False by blast
  qed
  then have hu: "\<not> isWhiteSpace (hd ?u)" using hd_dropWhile by blast
  have "rev ?u = takeWhile isWhiteSpace (rev ?u) @ ?d" by simp
  then have "?u = rev ?d @ rev (takeWhile isWhiteSpace (rev ?u))"
    by (metis rev_append rev_rev_ident)
  then have "hd ?u = hd (rev ?d)" using dne by (metis hd_append2 rev_is_Nil_conv)
  with hu t have "\<not> isWhiteSpace (hd (trim s))" by simp
  with l show ?thesis by simp
qed

lemma trim_fixed:
  "s = [] \<or> (\<not> isWhiteSpace (hd s) \<and> \<not> isWhiteSpace (last s)) \<Longrightarrow> trim s = s"
proof (cases s)
  case Nil
  then show ?thesis by (simp add: trim_def)
next
  case (Cons a as)
  assume "s = [] \<or> (\<not> isWhiteSpace (hd s) \<and> \<not> isWhiteSpace (last s))"
  with Cons have h: "\<not> isWhiteSpace (hd s)" and l: "\<not> isWhiteSpace (last s)" by auto
  have 1: "dropWhile isWhiteSpace s = s" using h Cons by simp
  have "hd (rev s) = last s" using Cons by (simp add: hd_rev)
  then have 2: "dropWhile isWhiteSpace (rev s) = rev s" using l Cons
    by (metis dropWhile_eq_self_iff)
  from 1 2 show ?thesis by (simp add: trim_def)
qed

lemma trim_idem: "trim (trim s) = trim s"
  by (rule trim_fixed) (rule trim_ends)

lemma normalizeNeighborhoodName_idem:
  "normalizeNeighborhoodName (normalizeNeighborhoodName x) = normalizeNeighborhoodName x"
proof (cases "trim (collapseWhiteSpace x) = []")
  case True
  then have "normalizeNeighborhoodName x = ''Unknown''"
    by (simp add: normalizeNeighborhoodName_def)
  moreover have "normalizeNeighborhoodName ''Unknown'' = ''Unknown''"
    by (simp add: name_eval)
  ultimately show ?thesis by simp
next
  case False
  let ?t = "trim (collapseWhiteSpace x)"
  have n: "normalizeNeighborhoodName x = ?t"
    using False by (simp add: normalizeNeighborhoodName_def)
  have "normalWs ?t" by (rule normalWs_trim) (rule normalWs_collapse)
  then have "collapseWhiteSpace ?t = ?t" by (rule collapse_normal)
  then have "trim (collapseWhiteSpace ?t) = ?t" by (simp add: trim_idem)
  with False n show ?thesis by (simp add: normalizeNeighborhoodName_def)
qed


lemma lowerChar_space: "lowerChar (CHR '' '') = CHR '' ''"
  by (simp add: lowerChar_def upperLetters_def lowerLetters_def)

lemma ws_lower_comp: "isWhiteSpace \<circ> lowerChar = isWhiteSpace"
  by (rule ext) (simp add: lowerChar_ws)

lemma trim_lower: "trim (toLowerCase s) = toLowerCase (trim s)"
  by (simp add: trim_def toLowerCase_def dropWhile_map rev_map ws_lower_comp)

lemma collapse_lower: "collapseWhiteSpace (toLowerCase s) = toLowerCase (collapseWhiteSpace s)"
proof (induction s rule: collapseWhiteSpace.induct)
  case 1
  then show ?case by (simp add: toLowerCase_def)
next
  case (2 c cs)
  show ?case
  proof (cases "isWhiteSpace c")
    case True
    have "dropWhile isWhiteSpace (map lowerChar cs) = map lowerChar (dropWhile isWhiteSpace cs)"
      by (simp add: dropWhile_map ws_lower_comp)
    with True 2(1) show ?thesis
      by (simp add: toLowerCase_def lowerChar_ws lowerChar_space)
  next
    case False
    with 2(2) show ?thesis
      by (simp add: toLowerCase_def lowerChar_ws)
  qed
qed

lemma lower_no_upper: "c \<in> set (toLowerCase s) \<Longrightarrow> c \<notin> set upperLetters"
proof -
  assume "c \<in> set (toLowerCase s)"
  then obtain b where "c = lowerChar b" by (auto simp: toLowerCase_def)
  then show ?thesis using lowerChar_cases[of b] lower_not_upper by metis
qed

lemma toLowerCase_idem: "toLowerCase (toLowerCase s) = toLowerCase s"
  by (simp add: toLowerCase_def lowerChar_idem)

lemma lower_not_Unknown: "toLowerCase s \<noteq> ''Unknown''"
proof
  assume "toLowerCase s = ''Unknown''"
  then have "CHR ''U'' \<in> set (toLowerCase s)" by simp
  then have "CHR ''U'' \<notin> set upperLetters" by (rule lower_no_upper)
  then show False by (simp add: upperLetters_def)
qed

lemmas key_eval = normalizeRentKey_def name_eval lower_eval aliasProperty_def
  RENT_KEY_ALIASES_def objectPrototypeProperties_def

lemma normalizeRentKey_empty: "normalizeRentKey [] = JSString []"
  by (simp add: key_eval)

lemma normalizeRentKey_alias1: "normalizeRentKey ''gramercy park'' = JSString ''gramercy park''"
  by (simp add: key_eval)

lemma normalizeRentKey_alias2:
  "normalizeRentKey ''stuyvesant town/pcv'' = JSString ''stuyvesant town/pcv''"
  by (simp add: key_eval)

lemma normalizeRentKey_idem_on_strings:
  assumes "normalizeRentKey x = JSString k"
  shows "normalizeRentKey k = JSString k"
proof -
  let ?n = "normalizeNeighborhoodName x"
  show ?thesis
  proof (cases "?n = [] \<or> ?n = ''Unknown''")
    case True
    with assms have "k = []" by (auto simp: normalizeRentKey_def)
    then show ?thesis by (simp add: normalizeRentKey_empty)
  next
    case False
    let ?l = "toLowerCase ?n"
    have fx: "trim (collapseWhiteSpace ?n) = ?n"
    proof -
      have i: "normalizeNeighborhoodName ?n = ?n" by (rule normalizeNeighborhoodName_idem)
      show ?thesis
      proof (cases "trim (collapseWhiteSpace ?n) = []")
        case True
        with i have "?n = ''Unknown''" by (simp add: normalizeNeighborhoodName_def)
        with False show ?thesis by simp
      next
        case False
        with i show ?thesis by (simp add: normalizeNeighborhoodName_def)
      qed
    qed
    have lne: "?l \<noteq> []" using False by (simp add: toLowerCase_def)
    have nl: "normalizeNeighborhoodName ?l = ?l"
      using fx lne by (simp add: normalizeNeighborhoodName_def collapse_lower trim_lower)
    show ?thesis
    proof (cases "aliasProperty ?l")
      case None
      with assms False have k: "k = ?l" by (simp add: normalizeRentKey_def Let_def)
      show ?thesis
        unfolding k using nl lne None lower_not_Unknown[of ?n]
        by (simp add: normalizeRentKey_def Let_def toLowerCase_idem)
    next
      case (Some a)
      with assms False have a: "a = JSString k" by (simp add: normalizeRentKey_def Let_def)
      with Some have "map_of RENT_KEY_ALIASES ?l = Some k"
        by (auto simp: aliasProperty_def split: option.splits if_splits)
      then have "(?l, k) \<in> set RENT_KEY_ALIASES" by (rule map_of_SomeD)
      then have "k = ''gramercy park'' \<or> k = ''stuyvesant town/pcv''"
        by (auto simp: RENT_KEY_ALIASES_def)
      then show ?thesis using normalizeRentKey_alias1 normalizeRentKey_alias2 by blast
    qed
  qed
qed

lemma normalizeRentKey_object:
  assumes "normalizeRentKey x = JSObject p"
  shows "(p = ''constructor'' \<or> p = ''__proto__'') \<and>
         normalizeRentKeyOfValue (normalizeRentKey x) = Inl TypeError"
proof -
  let ?n = "normalizeNeighborhoodName x"
  let ?l = "toLowerCase ?n"
  from assms have ap: "aliasProperty ?l = Some (JSObject p)"
    by (auto simp: normalizeRentKey_def Let_def split: if_splits option.splits)
  then have p: "p = ?l" and m: "p \<in> set objectPrototypeProperties"
    by (auto simp: aliasProperty_def split: option.splits if_splits)
  have nu: "\<forall>c \<in> set p. c \<notin> set upperLetters"
    unfolding p using lower_no_upper by blast
  have "\<forall>q \<in> set objectPrototypeProperties.
          q = ''constructor'' \<or> q = ''__proto__'' \<or> (\<exists>c \<in> set q. c \<in> set upperLetters)"
    by (simp add: objectPrototypeProperties_def upperLetters_def)
  with m nu have "p = ''constructor'' \<or> p = ''__proto__''"
    by blast
  with assms show ?thesis by (simp add: normalizeRentKeyOfValue_def)
qed

lemma normalizeNeighborhoodName_constructor:
  "normalizeNeighborhoodName ''constructor'' = ''constructor''"
  by (simp add: name_eval)

text \<open>
  Claim C8. Normalising an area name twice is normalising it once
  (\<open>normalizeNeighborhoodName_idem\<close>), and so is normalising a rent key whenever the
  key is a string (\<open>normalizeRentKey_idem_on_strings\<close>). For the name "constructor"
  (and "__proto__", \<open>normalizeRentKey_object\<close>) the property read on the alias object
  finds an inherited object, \<open>normalizeRentKey\<close> returns it in place of a string, and
  normalising that value again throws: there the claim does not hold.
\<close>

theorem rent_key_constructor:
  "normalizeRentKey ''constructor'' = JSObject ''constructor'' \<and>
   normalizeRentKeyOfValue (normalizeRentKey ''constructor'') = Inl TypeError \<and>
   normalizeRentKeyOfValue (normalizeRentKey ''constructor'') \<noteq>
     Inr (normalizeRentKey ''constructor'')"
  by (simp add: normalizeRentKey_def normalizeRentKeyOfValue_def
      normalizeNeighborhoodName_constructor lower_eval
      aliasProperty_def RENT_KEY_ALIASES_def objectPrototypeProperties_def)

section \<open>Spatial index\<close>

lemma addDistance_length: "length ds \<le> k \<Longrightarrow> length (addDistance k d ds) \<le> k"
  by (cases d) (auto simp: addDistance_def Let_def)

lemma addDistance_sorted: "sorted ds \<Longrightarrow> sorted (addDistance k d ds)"
  by (cases d) (auto simp: addDistance_def Let_def sorted_butlast)

lemma addDistance_set:
  "set (addDistance k d ds) \<subseteq> set ds \<union> {x. d = Fin x}"
proof (cases d)
  case (Fin x)
  have "set (butlast (sort (ds @ [x]))) \<subseteq> set (sort (ds @ [x]))"
    by (meson in_set_butlastD subsetI)
  with Fin show ?thesis by (auto simp: addDistance_def Let_def)
qed (simp_all add: addDistance_def)

lemma search_inv:
  assumes "\<And>p ds. p \<in> set (nodePoints node) \<Longrightarrow> index p \<noteq> index t \<Longrightarrow> I ds \<Longrightarrow>
             I (addDistance k (getDistanceInMeters (latitude t) (longitude t)
                                 (latitude p) (longitude p)) ds)"
    and "I ds"
  shows "I (search t k node ds)"
  using assms
proof (induction node arbitrary: ds)
  case Null
  then show ?case by simp
next
  case (Node p a l r)
  define tv where "tv = (if a = 0 then latitude t else longitude t)"
  define nv where "nv = (if a = 0 then latitude p else longitude p)"
  define near where "near = (if tv < nv then l else r)"
  define far where "far = (if tv < nv then r else l)"
  define d1 where "d1 = search t k near ds"
  define d2 where "d2 = (if index p \<noteq> index t
             then addDistance k (getDistanceInMeters (latitude t) (longitude t)
                    (latitude p) (longitude p)) d1 else d1)"
  have step: "I (addDistance k (getDistanceInMeters (latitude t) (longitude t)
                                 (latitude q) (longitude q)) es)"
    if "q \<in> set (nodePoints (Node p a l r))" "index q \<noteq> index t" "I es" for q es
    using that by (rule Node.prems(1))
  have sub: "I (search t k n es)" if "n = l \<or> n = r" "I es" for n es
  proof -
    have st: "I (addDistance k (getDistanceInMeters (latitude t) (longitude t)
                                 (latitude q) (longitude q)) fs)"
      if "q \<in> set (nodePoints n)" "index q \<noteq> index t" "I fs" for q fs
    proof (rule step)
      show "q \<in> set (nodePoints (Node p a l r))"
        using that(1) \<open>n = l \<or> n = r\<close> by auto
    qed (rule that)+
    from \<open>n = l \<or> n = r\<close> show ?thesis
    proof
      assume "n = l"
      then show ?thesis using Node.IH(1)[of es] st \<open>I es\<close> by blast
    next
      assume "n = r"
      then show ?thesis using Node.IH(2)[of es] st \<open>I es\<close> by blast
    qed
  qed
  have nr: "near = l \<or> near = r" by (simp add: near_def)
  have fr: "far = l \<or> far = r" by (simp add: far_def)
  have 1: "I d1" unfolding d1_def using nr Node.prems(2) by (rule sub)
  have 2: "I d2"
  proof (cases "index p \<noteq> index t")
    case True
    have "I (addDistance k (getDistanceInMeters (latitude t) (longitude t)
                                 (latitude p) (longitude p)) d1)"
      by (rule step) (simp_all add: True 1)
    with True show ?thesis by (simp add: d2_def)
  next
    case False
    with 1 show ?thesis by (simp add: d2_def)
  qed
  have 3: "I (search t k far d2)" using fr 2 by (rule sub)
  have "search t k (Node p a l r) ds = d2 \<or> search t k (Node p a l r) ds = search t k far d2"
    unfolding d2_def d1_def near_def far_def tv_def nv_def by (simp add: Let_def)
  then show ?case
  proof
    assume e: "search t k (Node p a l r) ds = d2"
    show ?thesis by (subst e) (rule 2)
  next
    assume e: "search t k (Node p a l r) ds = search t k far d2"
    show ?thesis by (subst e) (rule 3)
  qed
qed

lemma search_length: "length ds \<le> k \<Longrightarrow> length (search t k node ds) \<le> k"
  by (rule search_inv[where I = "\<lambda>ds. length ds \<le> k"]) (simp_all add: addDistance_length)

lemma search_sorted: "sorted ds \<Longrightarrow> sorted (search t k node ds)"
  by (rule search_inv[where I = sorted]) (simp_all add: addDistance_sorted)

lemma search_set:
  "set (search t k node ds) \<subseteq> set ds \<union> otherDistances t (nodePoints node)"
proof (rule search_inv[where I = "\<lambda>es. set es \<subseteq> set ds \<union> otherDistances t (nodePoints node)"])
  fix p es
  assume p: "p \<in> set (nodePoints node)" "index p \<noteq> index t"
    and es: "set es \<subseteq> set ds \<union> otherDistances t (nodePoints node)"
  let ?d = "getDistanceInMeters (latitude t) (longitude t) (latitude p) (longitude p)"
  have "{x. ?d = Fin x} \<subseteq> otherDistances t (nodePoints node)"
    using p by (auto simp: otherDistances_def)
  with addDistance_set[of k ?d es] es
  show "set (addDistance k ?d es) \<subseteq> set ds \<union> otherDistances t (nodePoints node)"
    by blast
qed simp

lemma nodePoints_build: "set (nodePoints (buildKdTree points depth)) = set points"
proof (induction points depth rule: buildKdTree.induct)
  case (1 depth)
  then show ?case by simp
next
  case (2 p ps depth)
  let ?axis = "depth mod 2"
  let ?sorted = "sort_key (\<lambda>a. if ?axis = 0 then latitude a else longitude a) (p # ps)"
  let ?m = "length ?sorted div 2"
  have m: "?m < length ?sorted" by simp
  have s: "?sorted = take ?m ?sorted @ (?sorted ! ?m) # drop (Suc ?m) ?sorted"
    using m by (rule id_take_nth_drop)
  have "set ?sorted = set (take ?m ?sorted) \<union> {?sorted ! ?m} \<union> set (drop (Suc ?m) ?sorted)"
    by (subst s) (simp only: set_append list.set, blast)
  moreover have "set ?sorted = set (p # ps)" by (simp only: set_sort)
  moreover have "set (nodePoints (buildKdTree (take ?m ?sorted) (depth + 1))) = set (take ?m ?sorted)"
    by (rule 2(1); rule refl)
  moreover have "set (nodePoints (buildKdTree (drop (?m + 1) ?sorted) (depth + 1))) = set (drop (?m + 1) ?sorted)"
    by (rule 2(2); rule refl)
  ultimately show ?case by (simp add: Let_def)
qed

text \<open>
  The bounded result set as the first \<open>k\<close> entries of a sorted list, and the query
  against the scan when pruning is sound.
\<close>

lemma take_insort_take:
  "sorted S \<Longrightarrow> take k (insort d (take k S)) = take k (insort (d::real) S)"
proof (induction S arbitrary: k)
  case Nil
  then show ?case by simp
next
  case (Cons s S)
  show ?case
  proof (cases k)
    case 0
    then show ?thesis by simp
  next
    case (Suc k')
    from Cons.prems have "sorted S" by simp
    from Cons.IH[OF this, of k'] Suc show ?thesis
      by (cases k') (simp_all add: take_Cons')
  qed
qed

lemma take_insort_ge:
  "sorted S \<Longrightarrow> 0 < k \<Longrightarrow> k \<le> length S \<Longrightarrow> S ! (k - 1) \<le> b \<Longrightarrow>
   take k (insort (b::real) S) = take k S"
proof (induction S arbitrary: k)
  case Nil
  then show ?case by simp
next
  case (Cons s S)
  show ?case
  proof (cases "k = 1")
    case True
    with Cons.prems show ?thesis by auto
  next
    case False
    with Cons.prems obtain k' where k: "k = Suc k'" "0 < k'" by (cases k) auto
    from Cons.prems k have 1: "sorted S" "k' \<le> length S" "S ! (k' - 1) \<le> b"
      by (auto simp: nth_Cons')
    from Cons.prems k have "s \<le> S ! (k' - 1)" by (auto simp: nth_Cons')
    with 1 have sb: "s \<le> b" by simp
    have ic: "insort s S = s # S"
      using Cons.prems(1) by (intro insort_is_Cons) auto
    from Cons.IH[OF 1(1) k(2) 1(2) 1(3)] k sb ic show ?thesis
      by (cases "b = s") auto
  qed
qed

lemma sort_cong: "mset xs = mset ys \<Longrightarrow> sort xs = sort (ys :: real list)"
  by (rule properties_for_sort) simp_all

lemma take_sort_prepend_ge:
  assumes "0 < k" "k \<le> length zs" "\<forall>b \<in> set B. sort zs ! (k - 1) \<le> b"
  shows "take k (sort (B @ zs)) = take k (sort (zs :: real list))"
  using assms(3)
proof (induction B)
  case Nil
  then show ?case by simp
next
  case (Cons b B)
  let ?S = "sort (B @ zs)"
  from Cons have ih: "take k ?S = take k (sort zs)" by simp
  have len: "k \<le> length ?S" using assms(2) by simp
  have "?S ! (k - 1) = take k ?S ! (k - 1)" using assms(1) by simp
  also have "\<dots> = sort zs ! (k - 1)" using ih assms(1) by simp
  finally have "?S ! (k - 1) \<le> b" using Cons.prems by simp
  then have "take k (insort b ?S) = take k ?S"
    using assms(1) len by (intro take_insort_ge) simp_all
  with ih show ?case by simp
qed

lemma take_sort_append_ge:
  assumes "0 < k" "k \<le> length zs" "\<forall>b \<in> set B. sort zs ! (k - 1) \<le> b"
  shows "take k (sort (zs @ B)) = take k (sort (zs :: real list))"
proof -
  have "sort (zs @ B) = sort (B @ zs)" by (rule sort_cong) simp
  with take_sort_prepend_ge[OF assms] show ?thesis by simp
qed

lemma addDistance_take:
  "addDistance k (Fin d) (take k (sort xs)) = take k (sort (xs @ [d]))"
proof -
  define ds where "ds = take k (sort xs)"
  define pushed where "pushed = sort (ds @ [d])"
  have "sorted ds" by (simp add: ds_def sorted_wrt_take)
  then have sd: "sort ds = ds" by (rule sorted_sort_id)
  have "pushed = sort (d # ds)" unfolding pushed_def by (rule sort_cong) simp
  then have p: "pushed = insort d ds" using sd by simp
  have "sort (xs @ [d]) = sort (d # xs)" by (rule sort_cong) simp
  then have "take k (sort (xs @ [d])) = take k (insort d (sort xs))" by simp
  also have "\<dots> = take k (insort d ds)"
    unfolding ds_def by (rule take_insort_take[symmetric]) simp
  finally have t: "take k (sort (xs @ [d])) = take k pushed" using p by simp
  have l: "length pushed \<le> Suc k" by (simp add: pushed_def ds_def)
  have a: "addDistance k (Fin d) ds = (if k < length pushed then butlast pushed else pushed)"
    by (simp add: addDistance_def Let_def pushed_def)
  have "(if k < length pushed then butlast pushed else pushed) = take k pushed"
  proof (cases "k < length pushed")
    case True
    with l have "length pushed = Suc k" by simp
    then have "butlast pushed = take k pushed" by (simp add: butlast_conv_take)
    with True show ?thesis by simp
  next
    case False
    then show ?thesis by simp
  qed
  with a t show ?thesis unfolding ds_def by simp
qed

lemma addDistance_point:
  "(if index p \<noteq> index t
    then addDistance k (getDistanceInMeters (latitude t) (longitude t) (latitude p) (longitude p))
           (take k (sort ys))
    else take k (sort ys)) = take k (sort (ys @ distancesFrom t [p]))"
proof (cases "index p \<noteq> index t")
  case True
  show ?thesis
  proof (cases "getDistanceInMeters (latitude t) (longitude t) (latitude p) (longitude p)")
    case (Fin d)
    with True show ?thesis by (simp add: distancesFrom_def addDistance_take)
  qed (simp_all add: True distancesFrom_def addDistance_def)
next
  case False
  then show ?thesis by (simp add: distancesFrom_def)
qed

lemma distancesFrom_append:
  "distancesFrom t (ps @ qs) = distancesFrom t ps @ distancesFrom t qs"
  by (simp add: distancesFrom_def)

lemma distancesFrom_Cons:
  "distancesFrom t (p # ps) = distancesFrom t [p] @ distancesFrom t ps"
  by (simp add: distancesFrom_def)

lemma search_take:
  "lowerBounded t node \<Longrightarrow>
   search t k node (take k (sort xs)) =
     take k (sort (xs @ distancesFrom t (nodePoints node)))"
proof (induction node arbitrary: xs)
  case Null
  then show ?case by (simp add: distancesFrom_def)
next
  case (Node p a l r)
  define tv where "tv = (if a = 0 then latitude t else longitude t)"
  define nv where "nv = (if a = 0 then latitude p else longitude p)"
  define near where "near = (if tv < nv then l else r)"
  define far where "far = (if tv < nv then r else l)"
  define ad where "ad = getAxisDistanceMeters \<bar>tv - nv\<bar> a (latitude t)"
  define ys where "ys = xs @ distancesFrom t (nodePoints near) @ distancesFrom t [p]"
  define d1 where "d1 = search t k near (take k (sort xs))"
  define d2 where "d2 = (if index p \<noteq> index t
             then addDistance k (getDistanceInMeters (latitude t) (longitude t)
                    (latitude p) (longitude p)) d1 else d1)"
  from Node.prems have lb: "lowerBounded t l" "lowerBounded t r"
      and fb: "\<forall>d \<in> set (distancesFrom t (nodePoints far)). ad \<le> d"
    by (simp_all add: Let_def far_def tv_def nv_def ad_def)
  have sub: "search t k n (take k (sort zs)) =
               take k (sort (zs @ distancesFrom t (nodePoints n)))"
    if "n = l \<or> n = r" for n zs
    using that Node.IH lb by blast
  have nr: "near = l \<or> near = r" by (simp add: near_def)
  have fr: "far = l \<or> far = r" by (simp add: far_def)
  have 1: "d1 = take k (sort (xs @ distancesFrom t (nodePoints near)))"
    unfolding d1_def using nr by (rule sub)
  have 2: "d2 = take k (sort ys)"
    unfolding d2_def 1 ys_def
    using addDistance_point[of p t k "xs @ distancesFrom t (nodePoints near)"] by simp
  have dn: "distancesFrom t (nodePoints (Node p a l r)) =
            distancesFrom t [p] @ distancesFrom t (nodePoints l) @ distancesFrom t (nodePoints r)"
    using distancesFrom_Cons[of t p "nodePoints l @ nodePoints r"]
    by (simp add: distancesFrom_append)
  have m: "mset (ys @ distancesFrom t (nodePoints far)) =
           mset (xs @ distancesFrom t (nodePoints (Node p a l r)))"
  proof (cases "tv < nv")
    case True
    then have "near = l" "far = r" by (simp_all add: near_def far_def)
    then show ?thesis unfolding ys_def dn by simp
  next
    case False
    then have "near = r" "far = l" by (simp_all add: near_def far_def)
    then show ?thesis unfolding ys_def dn by simp
  qed
  have all: "take k (sort (ys @ distancesFrom t (nodePoints far))) =
             take k (sort (xs @ distancesFrom t (nodePoints (Node p a l r))))"
    using sort_cong[OF m] by simp
  have 3: "search t k far d2 = take k (sort (ys @ distancesFrom t (nodePoints far)))"
    unfolding 2 using fr by (rule sub)
  have e: "search t k (Node p a l r) (take k (sort xs)) =
        (if length d2 < k \<or> jsLess (Fin ad) (if d2 = [] then PosInf else Fin (last d2))
         then search t k far d2 else d2)"
    unfolding d2_def d1_def near_def far_def tv_def nv_def ad_def by (simp add: Let_def)
  show ?case
  proof (cases "length d2 < k \<or> jsLess (Fin ad) (if d2 = [] then PosInf else Fin (last d2))")
    case True
    with e 3 all show ?thesis by simp
  next
    case False
    then have lk: "\<not> length d2 < k" and ne: "d2 \<noteq> []" and la: "last d2 \<le> ad"
      by (auto split: if_splits)
    from ne 2 have kp: "0 < k" by (cases k) auto
    from lk 2 have ky: "k \<le> length ys" by simp
    have "last d2 = d2 ! (length d2 - 1)" using ne by (rule last_conv_nth)
    moreover have "length d2 = k" using 2 ky by simp
    ultimately have "last d2 = sort ys ! (k - 1)" using 2 kp by simp
    with la fb have "\<forall>b \<in> set (distancesFrom t (nodePoints far)). sort ys ! (k - 1) \<le> b"
      by fastforce
    from take_sort_append_ge[OF kp ky this] 2 all e False show ?thesis by simp
  qed
qed

lemma nodePoints_build_mset: "mset (nodePoints (buildKdTree points depth)) = mset points"
proof (induction points depth rule: buildKdTree.induct)
  case (1 depth)
  then show ?case by simp
next
  case (2 p ps depth)
  define srt where
    "srt = sort_key (\<lambda>a. if depth mod 2 = 0 then latitude a else longitude a) (p # ps)"
  define m where "m = length srt div 2"
  have ms: "mset srt = mset (p # ps)" unfolding srt_def by (rule mset_sort)
  have "length srt = Suc (length ps)" unfolding srt_def by simp
  then have "m < length srt" by (simp add: m_def)
  then have s: "srt = take m srt @ (srt ! m) # drop (Suc m) srt"
    by (rule id_take_nth_drop)
  have l: "mset (nodePoints (buildKdTree (take m srt) (depth + 1))) = mset (take m srt)"
    unfolding m_def srt_def by (rule 2(1); rule refl)
  have r: "mset (nodePoints (buildKdTree (drop (m + 1) srt) (depth + 1))) =
           mset (drop (m + 1) srt)"
    unfolding m_def srt_def by (rule 2(2); rule refl)
  have "buildKdTree (p # ps) depth =
          Node (srt ! m) (depth mod 2)
            (buildKdTree (take m srt) (depth + 1))
            (buildKdTree (drop (m + 1) srt) (depth + 1))"
    by (simp add: Let_def srt_def m_def)
  then have "mset (nodePoints (buildKdTree (p # ps) depth)) =
             mset (take m srt @ (srt ! m) # drop (Suc m) srt)"
    using l r by simp
  with s ms show ?case by simp
qed

lemma bruteForceDistances_alt:
  "bruteForceDistances points t k = take k (sort (distancesFrom t points))"
  by (simp add: bruteForceDistances_def distancesFrom_def)

lemma dm: "mset (distancesFrom t xs) = sum_mset (mset (map (\<lambda>p. mset (distancesFrom t [p])) xs))"
proof (induction xs)
  case Nil
  show ?case by (simp add: distancesFrom_def)
next
  case (Cons x xs)
  have "distancesFrom t (x # xs) = distancesFrom t [x] @ distancesFrom t xs"
    by (rule distancesFrom_Cons)
  with Cons show ?case by simp
qed


lemma distancesFrom_mset:
  assumes "mset ps = mset qs"
  shows "mset (distancesFrom t ps) = mset (distancesFrom t qs)"
proof -
  from assms have "image_mset (\<lambda>p. mset (distancesFrom t [p])) (mset ps) =
             image_mset (\<lambda>p. mset (distancesFrom t [p])) (mset qs)"
    by (simp only:)
  then have "mset (map (\<lambda>p. mset (distancesFrom t [p])) ps) =
             mset (map (\<lambda>p. mset (distancesFrom t [p])) qs)"
    by (simp only: mset_map)
  then show ?thesis by (simp only: dm[of t ps] dm[of t qs])
qed

lemma query_is_scan_when_lower_bounded:
  assumes "lowerBounded t (buildKdTree points 0)"
  shows "findKNearestNeighborDistances (buildKdTree points 0) t k =
         bruteForceDistances points t k"
proof -
  have "search t k (buildKdTree points 0) (take k (sort [])) =
        take k (sort ([] @ distancesFrom t (nodePoints (buildKdTree points 0))))"
    using assms by (rule search_take)
  then have "search t k (buildKdTree points 0) [] =
        take k (sort (distancesFrom t (nodePoints (buildKdTree points 0))))"
    by simp
  moreover have "sort (distancesFrom t (nodePoints (buildKdTree points 0))) =
                 sort (distancesFrom t points)"
    by (rule sort_cong, rule distancesFrom_mset, rule nodePoints_build_mset)
  ultimately show ?thesis
    by (simp only: findKNearestNeighborDistances_def bruteForceDistances_alt)
qed

text \<open>Two trees at the same place: pruning is sound, and the query is the scan.\<close>

lemma same_place_distance: "getDistanceInMeters la lo la lo = Fin 0"
  by (simp add: getDistanceInMeters_def toRadians_def atan2_def Let_def)

lemma colocated_points:
  "treePoints [exampleTree, deadTree] =
     [\<lparr> latitude = 40.7, longitude = -73.9, index = 0 \<rparr>,
      \<lparr> latitude = 40.7, longitude = -73.9, index = 1 \<rparr>]"
  by (simp add: treePoints_def exampleTree_def deadTree_def upt_rec)

lemma colocated_lower_bounded:
  "lowerBounded (treePoints [exampleTree, deadTree] ! 0)
     (buildKdTree (treePoints [exampleTree, deadTree]) 0)"
  by (simp add: colocated_points Let_def distancesFrom_def same_place_distance
      getAxisDistanceMeters_def)

lemma colocated_query:
  "findKNearestNeighborDistances (buildKdTree (treePoints [exampleTree, deadTree]) 0)
     (treePoints [exampleTree, deadTree] ! 0) 5 = [0] \<and>
   bruteForceDistances (treePoints [exampleTree, deadTree])
     (treePoints [exampleTree, deadTree] ! 0) 5 = [0]"
  using query_is_scan_when_lower_bounded[OF colocated_lower_bounded, of 5]
  by (simp add: bruteForceDistances_def colocated_points same_place_distance)

section \<open>Density score\<close>

lemma getTreeFriendsScore_range: "0 \<le> getTreeFriendsScore a \<and> getTreeFriendsScore a \<le> 10"
  by (cases a) (simp_all add: getTreeFriendsScore_def clamp_def)

lemma calculateAffordabilityScore_range:
  "0 \<le> calculateAffordabilityScore r \<and> calculateAffordabilityScore r \<le> 10"
  by (cases r) (simp_all add: calculateAffordabilityScore_def clamp_def)

lemma foldl_plus: "foldl (+) a xs = a + sum_list xs" for a :: real
  by (induction xs arbitrary: a) simp_all

lemma treePoints_length: "length (treePoints trees) = length trees"
  by (simp add: treePoints_def)

lemma treePoints_nth:
  "i < length trees \<Longrightarrow>
   treePoints trees ! i =
     \<lparr> latitude = latitude (trees ! i), longitude = longitude (trees ! i), index = i \<rparr>"
  by (simp add: treePoints_def)

lemma buildKdTree_not_Null: "points \<noteq> [] \<Longrightarrow> buildKdTree points depth \<noteq> Null"
  by (cases points) (simp_all add: Let_def)

lemma assignTreeFriendsScores_nth:
  assumes "i < length trees"
  shows "assignTreeFriendsScores trees k ! i =
     (trees ! i)\<lparr>treeFriendsScore :=
        Fin (getTreeFriendsScore
          (let ds = findKNearestNeighborDistances (buildKdTree (treePoints trees) 0)
                      (treePoints trees ! i) k
           in if 0 < length ds then Fin (foldl (+) 0 ds / real (length ds)) else PosInf))\<rparr>"
proof -
  from assms have ne: "trees \<noteq> []" by auto
  then have "treePoints trees \<noteq> []" by (simp add: treePoints_def)
  then obtain p a l r where n: "buildKdTree (treePoints trees) 0 = Node p a l r"
    using buildKdTree_not_Null[of "treePoints trees" 0]
    by (cases "buildKdTree (treePoints trees) 0") auto
  show ?thesis
    using assms ne n
    by (simp add: assignTreeFriendsScores_def Let_def treePoints_length)
qed

lemma assignTreeFriendsScores_length:
  "length (assignTreeFriendsScores trees k) = length trees"
proof (cases "trees = []")
  case True
  then show ?thesis by (simp add: assignTreeFriendsScores_def)
next
  case False
  then have "treePoints trees \<noteq> []" by (simp add: treePoints_def)
  then obtain p a l r where n: "buildKdTree (treePoints trees) 0 = Node p a l r"
    using buildKdTree_not_Null[of "treePoints trees" 0]
    by (cases "buildKdTree (treePoints trees) 0") auto
  show ?thesis using False n
    by (simp add: assignTreeFriendsScores_def Let_def treePoints_length)
qed

lemma otherDistances_cong: "set ps = set qs \<Longrightarrow> otherDistances t ps = otherDistances t qs"
  by (simp add: otherDistances_def)

lemma findK_properties:
  "length (findKNearestNeighborDistances (buildKdTree points depth) t k) \<le> k \<and>
   sorted (findKNearestNeighborDistances (buildKdTree points depth) t k) \<and>
   set (findKNearestNeighborDistances (buildKdTree points depth) t k) \<subseteq> otherDistances t points"
proof -
  have "set (search t k (buildKdTree points depth) []) \<subseteq>
          set [] \<union> otherDistances t (nodePoints (buildKdTree points depth))"
    by (rule search_set)
  moreover have "otherDistances t (nodePoints (buildKdTree points depth)) = otherDistances t points"
    by (rule otherDistances_cong) (rule nodePoints_build)
  ultimately show ?thesis
    by (simp add: findKNearestNeighborDistances_def search_length search_sorted)
qed

lemma otherDistances_treePoints:
  assumes "i < length trees" and "d \<in> otherDistances (treePoints trees ! i) (treePoints trees)"
  shows "\<exists>j < length trees. j \<noteq> i \<and>
           getDistanceInMeters (latitude (trees ! i)) (longitude (trees ! i))
             (latitude (trees ! j)) (longitude (trees ! j)) = Fin d"
proof -
  from assms(2) obtain p where p: "p \<in> set (treePoints trees)"
      "index p \<noteq> index (treePoints trees ! i)"
      "getDistanceInMeters (latitude (treePoints trees ! i)) (longitude (treePoints trees ! i))
         (latitude p) (longitude p) = Fin d"
    by (auto simp: otherDistances_def)
  from p(1) obtain j where j: "j < length trees" "p = treePoints trees ! j"
    by (metis in_set_conv_nth treePoints_length)
  from j p(2) assms(1) have "j \<noteq> i" by (auto simp: treePoints_nth)
  with j p(3) assms(1) show ?thesis by (auto simp: treePoints_nth)
qed

lemma single_tree_score: "treeFriendsScore (assignTreeFriendsScores [t] k ! 0) = Fin 10"
  by (simp add: assignTreeFriendsScores_def treePoints_def Let_def
      findKNearestNeighborDistances_def getTreeFriendsScore_def)

text \<open>
  The density score of a point is the score of the average of what the query of the
  spatial index returns for it with \<open>k = 5\<close>: at most five distances, sorted, each the
  geodesic distance to another point of the set. A set of a single point gives that
  point the score 10.
\<close>

lemma density_score_of_query:
  assumes "i < length trees"
  shows "\<exists>ds. ds = findKNearestNeighborDistances (buildKdTree (treePoints trees) 0)
                     (treePoints trees ! i) 5 \<and>
           length ds \<le> 5 \<and> sorted ds \<and>
           (\<forall>d \<in> set ds. \<exists>j < length trees. j \<noteq> i \<and>
               getDistanceInMeters (latitude (trees ! i)) (longitude (trees ! i))
                 (latitude (trees ! j)) (longitude (trees ! j)) = Fin d) \<and>
           treeFriendsScore (assignTreeFriendsScores trees 5 ! i) =
             Fin (if ds = [] then 10
                  else if sum_list ds / real (length ds) \<le> 0 \<or>
                          sum_list ds / real (length ds) < 2 then 10
                  else clamp (10 - 0.12 * (sum_list ds / real (length ds) - 2)) 0 10) \<and>
           (length trees = 1 \<longrightarrow>
              treeFriendsScore (assignTreeFriendsScores trees 5 ! i) = Fin 10)"
proof -
  let ?ds = "findKNearestNeighborDistances (buildKdTree (treePoints trees) 0)
               (treePoints trees ! i) 5"
  note fp = findK_properties[of "treePoints trees" 0 "treePoints trees ! i" 5]
  have m: "\<forall>d \<in> set ?ds. \<exists>j < length trees. j \<noteq> i \<and>
               getDistanceInMeters (latitude (trees ! i)) (longitude (trees ! i))
                 (latitude (trees ! j)) (longitude (trees ! j)) = Fin d"
    using fp otherDistances_treePoints[OF assms] by blast
  have s: "treeFriendsScore (assignTreeFriendsScores trees 5 ! i) =
             Fin (if ?ds = [] then 10
                  else if sum_list ?ds / real (length ?ds) \<le> 0 \<or>
                          sum_list ?ds / real (length ?ds) < 2 then 10
                  else clamp (10 - 0.12 * (sum_list ?ds / real (length ?ds) - 2)) 0 10)"
    by (simp add: assignTreeFriendsScores_nth[OF assms] Let_def foldl_plus
        getTreeFriendsScore_def)
  have o: "length trees = 1 \<longrightarrow> treeFriendsScore (assignTreeFriendsScores trees 5 ! i) = Fin 10"
  proof
    assume "length trees = 1"
    then obtain t where t: "trees = [t]" by (cases trees) auto
    with assms have "i = 0" by simp
    with t show "treeFriendsScore (assignTreeFriendsScores trees 5 ! i) = Fin 10"
      by (simp add: single_tree_score)
  qed
  from fp m s o show ?thesis by blast
qed

lemma density_score_examples:
  "treeFriendsScore (assignTreeFriendsScores [exampleTree] 5 ! 0) = Fin 10 \<and>
   treeFriendsScore (assignTreeFriendsScores [exampleTree, deadTree] 5 ! 0) = Fin 10"
  using density_score_of_query[of 0 "[exampleTree]"]
    density_score_of_query[of 0 "[exampleTree, deadTree]"] colocated_query
  by simp

section \<open>The finalized collection\<close>

lemma trim_option: "trim (case v of Some x \<Rightarrow> trim x | None \<Rightarrow> []) = (case v of Some x \<Rightarrow> trim x | None \<Rightarrow> [])"
  by (cases v) (simp_all add: trim_idem, simp add: trim_def)

lemma parseTreeRow_Some:
  assumes "parseTreeRow num neighborhoods rentLookup headers line = Some t"
  shows "fromLine num headers line t \<and> boundedScores t \<and> trimmedFields t"
proof -
  let ?row = "rowOf headers (parseCsvLine line)"
  obtain lat lng where l: "toNumber num (?row ''latitude'') = Fin lat"
      "toNumber num (?row ''longitude'') = Fin lng"
    using assms
    by (cases "toNumber num (?row ''latitude'')"; cases "toNumber num (?row ''longitude'')")
       (simp_all add: parseTreeRow_def Let_def)
  define aff where "aff =
      (case calculateExpectedRent
              (getClosestNeighborhoodMatches lat lng neighborhoods rentLookup
                 NEAREST_NEIGHBOR_COUNT) of
         Some r \<Rightarrow> Some (Fin (calculateAffordabilityScore (Fin r))) | None \<Rightarrow> None)"
  from assms l have "latitude t = lat \<and> longitude t = lng \<and>
      treeFriendsScore t = Fin 0 \<and> accessibilityScore t = None \<and>
      status t = (case ?row ''status'' of Some v \<Rightarrow> trim v | None \<Rightarrow> []) \<and>
      sidewalk t = (case ?row ''sidewalk'' of Some v \<Rightarrow> trim v | None \<Rightarrow> []) \<and>
      problems t = (case ?row ''problems'' of Some v \<Rightarrow> trim v | None \<Rightarrow> []) \<and>
      affordabilityScore t = aff"
    unfolding parseTreeRow_def Let_def aff_def by fastforce
  then have t: "latitude t = lat" "longitude t = lng"
      "treeFriendsScore t = Fin 0" "accessibilityScore t = None"
      "status t = (case ?row ''status'' of Some v \<Rightarrow> trim v | None \<Rightarrow> [])"
      "sidewalk t = (case ?row ''sidewalk'' of Some v \<Rightarrow> trim v | None \<Rightarrow> [])"
      "problems t = (case ?row ''problems'' of Some v \<Rightarrow> trim v | None \<Rightarrow> [])"
      "affordabilityScore t = aff"
    by simp_all
  have "aff = None \<or> (\<exists>r. aff = Some (Fin (calculateAffordabilityScore (Fin r))))"
    unfolding aff_def by (auto split: option.splits)
  then have t8: "affordabilityScore t = None \<or>
         (\<exists>r. affordabilityScore t = Some (Fin (calculateAffordabilityScore (Fin r))))"
    using t(8) by simp
  have 1: "fromLine num headers line t"
    using l t by (simp add: fromLine_def)
  have 2: "boundedScores t"
    using t(3,4) t8 calculateAffordabilityScore_range by (auto simp: boundedScores_def)
  have 3: "trimmedFields t"
    unfolding trimmedFields_def t(5,6,7) by (simp add: trim_option)
  from 1 2 3 show ?thesis by simp
qed

lemma parseTreeRow_None:
  assumes "\<not> isFinite (toNumber num (rowOf headers (parseCsvLine line) ''latitude'')) \<or>
           \<not> isFinite (toNumber num (rowOf headers (parseCsvLine line) ''longitude''))"
  shows "parseTreeRow num neighborhoods rentLookup headers line = None"
  using assms
  by (cases "toNumber num (rowOf headers (parseCsvLine line) ''latitude'')";
      cases "toNumber num (rowOf headers (parseCsvLine line) ''longitude'')")
     (simp_all add: parseTreeRow_def Let_def)

lemma set_map_filter: "set (List.map_filter f xs) = {y. \<exists>x \<in> set xs. f x = Some y}"
  by (induction xs) (auto simp: map_filter_simps split: option.splits)

lemma assignTreeFriendsScores_elem:
  assumes "t' \<in> set (assignTreeFriendsScores trees k)"
  shows "\<exists>t \<in> set trees. \<exists>d. 0 \<le> d \<and> d \<le> 10 \<and> t' = t\<lparr>treeFriendsScore := Fin d\<rparr>"
proof -
  from assms obtain i where i: "i < length trees" "t' = assignTreeFriendsScores trees k ! i"
    by (metis in_set_conv_nth assignTreeFriendsScores_length)
  from i assignTreeFriendsScores_nth[OF i(1), of k] getTreeFriendsScore_range
  show ?thesis by (metis nth_mem)
qed

lemma assignAccessibilityScores_elem:
  assumes "t' \<in> set (assignAccessibilityScores trees)"
  shows "\<exists>t \<in> set trees. \<exists>c. 0 \<le> c \<and> c \<le> 11 \<and> t' = t\<lparr>accessibilityScore := Some (Fin c)\<rparr>"
proof -
  from assms obtain t where t: "t \<in> set trees"
    "t' = t\<lparr>accessibilityScore := Some (Fin (if toLowerCase (trim (status t)) = ''dead'' then 0
        else normalizeTreeFriendsScore (treeFriendsScore t) +
             normalizeAffordabilityScore (affordabilityScore t) +
             real (calculateHealthScore t)))\<rparr>"
    by (auto simp: assignAccessibilityScores_def Let_def)
  let ?c = "if toLowerCase (trim (status t)) = ''dead'' then 0
        else normalizeTreeFriendsScore (treeFriendsScore t) +
             normalizeAffordabilityScore (affordabilityScore t) +
             real (calculateHealthScore t)"
  have "real (calculateHealthScore t) \<le> 3" using healthScore_le_3[of t] by simp
  with normalizeTreeFriendsScore_range[of "treeFriendsScore t"]
       normalizeAffordabilityScore_range[of "affordabilityScore t"]
  have "0 \<le> ?c \<and> ?c \<le> 11" by simp
  with t show ?thesis by blast
qed

lemma parseTreeData_elem:
  assumes "t \<in> set (parseTreeData num csvData neighborhoods rentLookup)"
  shows "\<exists>line \<in> set (tl (csvLines csvData)). \<exists>t0 d c.
           parseTreeRow num neighborhoods rentLookup (parseCsvLine (hd (csvLines csvData))) line
             = Some t0 \<and>
           0 \<le> d \<and> d \<le> 10 \<and> 0 \<le> c \<and> c \<le> 11 \<and>
           t = t0\<lparr>treeFriendsScore := Fin d, accessibilityScore := Some (Fin c)\<rparr>"
proof -
  let ?lines = "csvLines csvData"
  let ?headers = "parseCsvLine (hd ?lines)"
  let ?parsed = "List.map_filter (parseTreeRow num neighborhoods rentLookup ?headers) (tl ?lines)"
  from assms have a: "t \<in> set (assignAccessibilityScores (assignTreeFriendsScores ?parsed 5))"
    by (simp add: parseTreeData_def Let_def split: if_splits)
  then obtain t1 c where t1: "t1 \<in> set (assignTreeFriendsScores ?parsed 5)"
      "0 \<le> c" "c \<le> 11" "t = t1\<lparr>accessibilityScore := Some (Fin c)\<rparr>"
    using assignAccessibilityScores_elem by blast
  then obtain t0 d where t0: "t0 \<in> set ?parsed" "0 \<le> d" "d \<le> 10"
      "t1 = t0\<lparr>treeFriendsScore := Fin d\<rparr>"
    using assignTreeFriendsScores_elem by blast
  from t0(1) obtain line where "line \<in> set (tl ?lines)"
      "parseTreeRow num neighborhoods rentLookup ?headers line = Some t0"
    by (auto simp: set_map_filter)
  with t1 t0 show ?thesis by blast
qed

text \<open>
  Claim C9. On the finalized collection of points: every point comes from a data line
  whose latitude and longitude convert to finite numbers, which are its coordinates (a
  line with a coordinate that is not finite yields no point); its density score is a
  finite number in [0,10], its scalar score is null or a finite number in [0,10], and
  its composite score is a finite number in [0,11].
\<close>

theorem finalized_points:
  "(\<forall>t \<in> set (parseTreeData num csvData neighborhoods rentLookup).
      (\<exists>line \<in> set (tl (csvLines csvData)).
           toNumber num (rowOf (parseCsvLine (hd (csvLines csvData))) (parseCsvLine line)
                           ''latitude'') = Fin (latitude t) \<and>
           toNumber num (rowOf (parseCsvLine (hd (csvLines csvData))) (parseCsvLine line)
                           ''longitude'') = Fin (longitude t)) \<and>
      (\<exists>d. treeFriendsScore t = Fin d \<and> 0 \<le> d \<and> d \<le> 10) \<and>
      (affordabilityScore t = None \<or>
         (\<exists>a. affordabilityScore t = Some (Fin a) \<and> 0 \<le> a \<and> a \<le> 10)) \<and>
      (\<exists>c. accessibilityScore t = Some (Fin c) \<and> 0 \<le> c \<and> c \<le> 11)) \<and>
   (\<forall>line.
      \<not> isFinite (toNumber num (rowOf headers (parseCsvLine line) ''latitude'')) \<or>
      \<not> isFinite (toNumber num (rowOf headers (parseCsvLine line) ''longitude''))
      \<longrightarrow> parseTreeRow num neighborhoods rentLookup headers line = None)"
proof (intro conjI ballI allI impI)
  fix t assume "t \<in> set (parseTreeData num csvData neighborhoods rentLookup)"
  then obtain line t0 d c where h: "line \<in> set (tl (csvLines csvData))"
      "parseTreeRow num neighborhoods rentLookup (parseCsvLine (hd (csvLines csvData))) line
             = Some t0"
      "0 \<le> d" "d \<le> 10" "0 \<le> c" "c \<le> 11"
      "t = t0\<lparr>treeFriendsScore := Fin d, accessibilityScore := Some (Fin c)\<rparr>"
    using parseTreeData_elem by blast
  note p = parseTreeRow_Some[OF h(2)]
  show "\<exists>line \<in> set (tl (csvLines csvData)).
           toNumber num (rowOf (parseCsvLine (hd (csvLines csvData))) (parseCsvLine line)
                           ''latitude'') = Fin (latitude t) \<and>
           toNumber num (rowOf (parseCsvLine (hd (csvLines csvData))) (parseCsvLine line)
                           ''longitude'') = Fin (longitude t)"
    using h(1,7) p by (auto simp: fromLine_def)
  show "\<exists>d. treeFriendsScore t = Fin d \<and> 0 \<le> d \<and> d \<le> 10"
    using h(3,4,7) by simp
  show "affordabilityScore t = None \<or>
         (\<exists>a. affordabilityScore t = Some (Fin a) \<and> 0 \<le> a \<and> a \<le> 10)"
    using h(7) p by (auto simp: boundedScores_def)
  show "\<exists>c. accessibilityScore t = Some (Fin c) \<and> 0 \<le> c \<and> c \<le> 11"
    using h(5,6,7) by simp
next
  fix line
  assume "\<not> isFinite (toNumber num (rowOf headers (parseCsvLine line) ''latitude'')) \<or>
      \<not> isFinite (toNumber num (rowOf headers (parseCsvLine line) ''longitude''))"
  then show "parseTreeRow num neighborhoods rentLookup headers line = None"
    by (rule parseTreeRow_None)
qed

lemma example_lines:
  "csvLines exampleCsv = [''latitude,longitude,status'', ''1,2,Alive'', ''x,2,Dead'']"
  by (simp add: exampleCsv_def csvLines_eval)

lemma example_headers:
  "parseCsvLine ''latitude,longitude,status'' = [''latitude'', ''longitude'', ''status'']"
  by (simp add: parseCsvLine_def)

lemma example_row1:
  "parseTreeRow exampleNumber [] Map.empty [''latitude'', ''longitude'', ''status''] ''1,2,Alive''
     = Some (exampleParsed\<lparr>treeFriendsScore := Fin 0, accessibilityScore := None\<rparr>)"
  by (simp add: parseTreeRow_def parseCsvLine_def rowOf_def toNumber_def exampleNumber_def
      getClosestNeighborhoodMatches_def exampleParsed_def lower_eval trim_eval Let_def upt_rec)

lemma example_row2:
  "parseTreeRow exampleNumber [] Map.empty [''latitude'', ''longitude'', ''status''] ''x,2,Dead''
     = None"
  by (simp add: parseTreeRow_def parseCsvLine_def rowOf_def toNumber_def exampleNumber_def
      Let_def upt_rec)

lemma example_parse:
  "parseTreeData exampleNumber exampleCsv [] Map.empty = [exampleParsed]"
  by (simp add: parseTreeData_def example_lines example_headers example_row1 example_row2
      map_filter_simps assignTreeFriendsScores_def treePoints_def Let_def
      findKNearestNeighborDistances_def getTreeFriendsScore_def
      assignAccessibilityScores_def normalizeTreeFriendsScore_def
      normalizeAffordabilityScore_def calculateHealthScore_def clamp_def
      exampleParsed_def lower_eval trim_eval)

text \<open>
  The example text gives one point, from its second line; the third line is dropped.
\<close>

theorem finalized_points_witness:
  "exampleParsed \<in> set (parseTreeData exampleNumber exampleCsv [] Map.empty) \<and>
   \<not> isFinite (toNumber exampleNumber
        (rowOf [''latitude'', ''longitude'', ''status''] (parseCsvLine ''x,2,Dead'')
           ''latitude'')) \<and>
   parseTreeRow exampleNumber [] Map.empty [''latitude'', ''longitude'', ''status'']
     ''x,2,Dead'' = None \<and>
   (\<exists>d. treeFriendsScore exampleParsed = Fin d \<and> 0 \<le> d \<and> d \<le> 10) \<and>
   (\<exists>c. accessibilityScore exampleParsed = Some (Fin c) \<and> 0 \<le> c \<and> c \<le> 11)"
proof -
  have m: "exampleParsed \<in> set (parseTreeData exampleNumber exampleCsv [] Map.empty)"
    by (simp add: example_parse)
  have n: "\<not> isFinite (toNumber exampleNumber
        (rowOf [''latitude'', ''longitude'', ''status''] (parseCsvLine ''x,2,Dead'')
           ''latitude''))"
    by (simp add: parseCsvLine_def rowOf_def toNumber_def exampleNumber_def upt_rec)
  from finalized_points[of exampleNumber exampleCsv "[]" Map.empty
         "[''latitude'', ''longitude'', ''status'']"] m n
  show ?thesis by blast
qed

lemma parseTreeData_trimmed:
  assumes "t \<in> set (parseTreeData num csvData neighborhoods rentLookup)"
  shows "trim (status t) = status t \<and> trim (sidewalk t) = sidewalk t \<and>
         trim (problems t) = problems t"
proof -
  from assms obtain line t0 d c where h:
      "parseTreeRow num neighborhoods rentLookup (parseCsvLine (hd (csvLines csvData))) line
             = Some t0"
      "t = t0\<lparr>treeFriendsScore := Fin d, accessibilityScore := Some (Fin c)\<rparr>"
    using parseTreeData_elem by blast
  from parseTreeRow_Some[OF h(1)] h(2) show ?thesis
    by (simp add: trimmedFields_def)
qed

text \<open>
  The trees that \<open>parseTreeData\<close> hands to \<open>assignAccessibilityScores\<close> have trimmed
  text fields and a density score in [0,10].
\<close>

lemma scored_trees_ready:
  assumes "t \<in> set (assignTreeFriendsScores
                      (List.map_filter (parseTreeRow num neighborhoods rentLookup headers) ls) k)"
  shows "trim (status t) = status t \<and> trim (problems t) = problems t \<and>
         (\<exists>d. treeFriendsScore t = Fin d \<and> 0 \<le> d \<and> d \<le> 10)"
proof -
  from assms obtain t0 d where t0:
      "t0 \<in> set (List.map_filter (parseTreeRow num neighborhoods rentLookup headers) ls)"
      "0 \<le> d" "d \<le> 10" "t = t0\<lparr>treeFriendsScore := Fin d\<rparr>"
    using assignTreeFriendsScores_elem by blast
  from t0(1) obtain line where
      "parseTreeRow num neighborhoods rentLookup headers line = Some t0"
    by (auto simp: set_map_filter)
  then have "trimmedFields t0" using parseTreeRow_Some by blast
  with t0 show ?thesis by (simp add: trimmedFields_def)
qed

section \<open>The query of the spatial index against the scan\<close>

lemma cos_poly_upper:
  fixes x :: real
  assumes "0 < x"
  shows "cos x \<le> 1 - x^2 / 2 + x^4 / 24 - x^6 / 720 + x^8 / 40320"
proof -
  obtain t where t: "cos x = (\<Sum>m<8. cos_coeff m * x ^ m) +
      (cos (t + 1/2 * real (8::nat) * pi) / fact 8) * x ^ 8"
    using Maclaurin_cos_expansion2[OF assms, of 8] by auto
  have set8: "{..<8::nat} = {0, 1, 2, 3, 4, 5, 6, 7}" by auto
  have c: "cos_coeff 0 = 1" "cos_coeff 1 = 0" "cos_coeff 2 = - 1 / 2" "cos_coeff 3 = 0"
    "cos_coeff 4 = 1 / 24" "cos_coeff 5 = 0" "cos_coeff 6 = - 1 / 720" "cos_coeff 7 = 0"
    by (simp_all add: cos_coeff_def fact_numeral)
  have c1: "cos_coeff (Suc 0) = 0" by (simp add: cos_coeff_def)
  have s: "(\<Sum>m<8. cos_coeff m * x ^ m) = 1 - x^2 / 2 + x^4 / 24 - x^6 / 720"
    unfolding set8 by (simp add: c c1)
  have f: "fact 8 = (40320::real)"
    by (simp add: fact_numeral)
  have "cos (t + 1/2 * real (8::nat) * pi) \<le> 1" by (rule cos_le_one)
  moreover have "0 \<le> x ^ 8 / 40320" using assms by simp
  ultimately have "(cos (t + 1/2 * real (8::nat) * pi) / fact 8) * x ^ 8 \<le> x ^ 8 / 40320"
    unfolding f using assms
    by (simp add: divide_right_mono mult_right_mono field_simps)
  with t s show ?thesis by linarith
qed

lemma cos_11_7: "cos (11 / 7 :: real) < 0"
proof -
  have "cos (11 / 7 :: real) \<le> 1 - (11/7)^2 / 2 + (11/7)^4 / 24 - (11/7)^6 / 720 + (11/7)^8 / 40320"
    by (rule cos_poly_upper) simp
  also have "\<dots> < 0" by (simp add: power_divide)
  finally show ?thesis .
qed

lemma pi_less_22_7: "pi < 22 / 7"
proof (rule ccontr)
  assume "\<not> pi < 22 / 7"
  then have "(11 / 7 :: real) \<le> pi / 2" by simp
  then have "0 \<le> cos (11 / 7 :: real)"
    by (intro cos_ge_zero) (simp_all, linarith?)
  with cos_11_7 show False by simp
qed

lemma atan2_sin_cos:
  assumes "\<bar>x\<bar> < pi / 2"
  shows "atan2 (sqrt ((sin x)\<^sup>2)) (sqrt (1 - (sin x)\<^sup>2)) = \<bar>x\<bar>"
proof -
  have cp: "0 < cos x" using assms by (intro cos_gt_zero_pi) (simp_all add: abs_less_iff)
  have "1 - (sin x)\<^sup>2 = (cos x)\<^sup>2"
    using sin_cos_squared_add[of x] by linarith
  then have c: "sqrt (1 - (sin x)\<^sup>2) = cos x" using cp by simp
  have s: "sqrt ((sin x)\<^sup>2) = \<bar>sin x\<bar>" by simp
  have sa: "\<bar>sin x\<bar> = sin \<bar>x\<bar>"
  proof (cases "0 \<le> x")
    case True
    then have "0 \<le> sin x" using assms by (intro sin_ge_zero) (simp_all add: abs_less_iff)
    with True show ?thesis by simp
  next
    case False
    then have "0 \<le> sin (- x)" using assms by (intro sin_ge_zero) (simp_all add: abs_less_iff)
    with False show ?thesis by simp
  qed
  have ca: "cos x = cos \<bar>x\<bar>" by (cases "0 \<le> x") simp_all
  have "atan2 \<bar>sin x\<bar> (cos x) = arctan (\<bar>sin x\<bar> / cos x)"
    using cp by (simp add: atan2_def)
  also have "\<dots> = arctan (tan \<bar>x\<bar>)"
    using sa ca by (simp add: tan_def)
  also have "\<dots> = \<bar>x\<bar>"
    using assms by (intro arctan_tan) simp_all
  finally show ?thesis using c s by simp
qed

lemma equator_distance:
  assumes "\<bar>b - a\<bar> < 180"
  shows "getDistanceInMeters 0 a 0 b = Fin (\<bar>b - a\<bar> * metresPerDegree)"
proof -
  let ?x = "toRadians (b - a) / 2"
  have x: "?x = (b - a) * pi / 360" by (simp add: toRadians_def)
  have "\<bar>?x\<bar> = \<bar>b - a\<bar> * pi / 360"
    unfolding x by (simp add: abs_mult)
  also have "\<dots> < 180 * pi / 360"
    using assms by (simp add: divide_strict_right_mono)
  finally have bx: "\<bar>?x\<bar> < pi / 2" by simp
  have r: "0 \<le> (sin ?x)\<^sup>2" "(sin ?x)\<^sup>2 \<le> 1"
  proof -
    show "0 \<le> (sin ?x)\<^sup>2" by simp
    have "(sin ?x)\<^sup>2 + (cos ?x)\<^sup>2 = 1" by (rule sin_cos_squared_add)
    moreover have "0 \<le> (cos ?x)\<^sup>2" by (rule zero_le_power2)
    ultimately show "(sin ?x)\<^sup>2 \<le> 1" by linarith
  qed
  have a: "atan2 (sqrt ((sin ?x)\<^sup>2)) (sqrt (1 - (sin ?x)\<^sup>2)) = \<bar>?x\<bar>"
    using bx by (rule atan2_sin_cos)
  have "getDistanceInMeters 0 a 0 b =
          Fin (6371000 * (2 * atan2 (sqrt ((sin ?x)\<^sup>2)) (sqrt (1 - (sin ?x)\<^sup>2))))"
    using r by (simp add: getDistanceInMeters_def Let_def toRadians_def)
  also have "\<dots> = Fin (6371000 * (2 * \<bar>?x\<bar>))" by (simp only: a)
  also have "\<dots> = Fin (\<bar>b - a\<bar> * metresPerDegree)"
    unfolding x by (simp add: metresPerDegree_def abs_mult)
  finally show ?thesis .
qed

lemma equatorPoint_simps [simp]:
  "latitude (equatorPoint lng i) = 0" "longitude (equatorPoint lng i) = lng"
  "index (equatorPoint lng i) = i"
  by (simp_all add: equatorPoint_def)

lemma equator_treePoints:
  "treePoints equatorTrees =
     [equatorPoint (-1.0002) 0, equatorPoint (-1) 1, equatorPoint 1.0005 2, equatorPoint 0 3,
      equatorPoint 0.1 4, equatorPoint 0.2 5, equatorPoint 0.3 6]"
  by (simp add: treePoints_def equatorTrees_def equatorTree_def equatorPoint_def upt_rec)

lemma equator_tree:
  "buildKdTree (treePoints equatorTrees) 0 =
     Node (equatorPoint 0 3) 0
       (Node (equatorPoint (-1) 1) 1
          (Node (equatorPoint (-1.0002) 0) 0 Null Null)
          (Node (equatorPoint 1.0005 2) 0 Null Null))
       (Node (equatorPoint 0.2 5) 1
          (Node (equatorPoint 0.1 4) 0 Null Null)
          (Node (equatorPoint 0.3 6) 0 Null Null))"
  by (simp add: equator_treePoints Let_def)

lemma metresPerDegree_bounds: "0 < metresPerDegree" "metresPerDegree < 111240"
proof -
  show "0 < metresPerDegree" by (simp add: metresPerDegree_def)
  have "6371000 * pi / 180 < 6371000 * (22 / 7) / 180"
    using pi_less_22_7 by simp
  also have "\<dots> < (111240 :: real)" by simp
  finally show "metresPerDegree < 111240" by (simp add: metresPerDegree_def)
qed

lemma equator_origin_distance:
  "\<bar>lng\<bar> < 180 \<Longrightarrow> getDistanceInMeters 0 0 0 lng = Fin (\<bar>lng\<bar> * metresPerDegree)"
  using equator_distance[of lng 0] by simp

lemma longitude_metres_equator: "getMetersPerDegreeLongitude 0 = 111320"
  by (simp add: getMetersPerDegreeLongitude_def toRadians_def)

lemma equator_query:
  "findKNearestNeighborDistances (buildKdTree (treePoints equatorTrees) 0)
     (treePoints equatorTrees ! 3) 5 =
   [0.1 * metresPerDegree, 0.2 * metresPerDegree, 0.3 * metresPerDegree,
    1 * metresPerDegree, 1.0005 * metresPerDegree]"
  using metresPerDegree_bounds
  by (simp add: findKNearestNeighborDistances_def equator_tree equator_treePoints Let_def
      equator_origin_distance addDistance_def getAxisDistanceMeters_def
      longitude_metres_equator)

lemma equator_brute_force:
  "bruteForceDistances (treePoints equatorTrees) (treePoints equatorTrees ! 3) 5 =
   [0.1 * metresPerDegree, 0.2 * metresPerDegree, 0.3 * metresPerDegree,
    1 * metresPerDegree, 1.0002 * metresPerDegree]"
  using metresPerDegree_bounds
  by (simp add: bruteForceDistances_def equator_treePoints equator_origin_distance)

text \<open>
  Claim C1. For every set of points and every point of the built index, the query
  returns the \<open>k\<close> smallest geodesic distances from the point to the others, as a scan
  over all points does. The query is sorted, has at most \<open>k\<close> entries and returns only
  distances to other points of the set (\<open>findK_properties\<close>), and it is the scan
  whenever the axis distance is a lower bound at every node
  (\<open>query_is_scan_when_lower_bounded\<close>). It is not one in general, and the query can
  miss a nearer point: for the seven trees on the equator and \<open>k = 5\<close>, the query for the
  tree at longitude 0 prunes the subtree that holds the tree at -1.0002 degrees, because
  the axis distance of one degree, 111320 metres, is not below the fifth distance kept,
  that of 1.0005 degrees, less than 111296 metres on the sphere of the haversine formula.
  The fifth distance returned is that of 1.0005 degrees, the fifth smallest is that of
  1.0002 degrees.
\<close>

theorem equator_query_misses_neighbor:
  "findKNearestNeighborDistances (buildKdTree (treePoints equatorTrees) 0)
     (treePoints equatorTrees ! 3) 5 =
     [0.1 * metresPerDegree, 0.2 * metresPerDegree, 0.3 * metresPerDegree,
      1 * metresPerDegree, 1.0005 * metresPerDegree] \<and>
   bruteForceDistances (treePoints equatorTrees) (treePoints equatorTrees ! 3) 5 =
     [0.1 * metresPerDegree, 0.2 * metresPerDegree, 0.3 * metresPerDegree,
      1 * metresPerDegree, 1.0002 * metresPerDegree] \<and>
   findKNearestNeighborDistances (buildKdTree (treePoints equatorTrees) 0)
     (treePoints equatorTrees ! 3) 5 \<noteq>
   bruteForceDistances (treePoints equatorTrees) (treePoints equatorTrees ! 3) 5"
  using metresPerDegree_bounds(1) by (simp add: equator_query equator_brute_force)

section \<open>The density score against the nearest neighbours\<close>

lemma density_score_when_lower_bounded:
  assumes "i < length trees"
    and "lowerBounded (treePoints trees ! i) (buildKdTree (treePoints trees) 0)"
  shows "treeFriendsScore (assignTreeFriendsScores trees 5 ! i) =
           Fin (specDensityScore trees i)"
proof -
  have q: "findKNearestNeighborDistances (buildKdTree (treePoints trees) 0)
             (treePoints trees ! i) 5 =
           bruteForceDistances (treePoints trees) (treePoints trees ! i) 5"
    using assms(2) by (rule query_is_scan_when_lower_bounded)
  show ?thesis
    unfolding assignTreeFriendsScores_nth[OF assms(1)] q specDensityScore_def
    by (simp add: Let_def foldl_plus getTreeFriendsScore_def)
qed

lemma street_treePoints:
  "treePoints streetTrees =
     [equatorPoint (-0.0005001) 0, equatorPoint (-0.0005) 1, equatorPoint 0.00050025 2,
      equatorPoint 0 3, equatorPoint 0.00005 4, equatorPoint 0.0001 5, equatorPoint 0.00015 6]"
  by (simp add: treePoints_def streetTrees_def equatorTree_def equatorPoint_def upt_rec)

lemma street_tree:
  "buildKdTree (treePoints streetTrees) 0 =
     Node (equatorPoint 0 3) 0
       (Node (equatorPoint (-0.0005) 1) 1
          (Node (equatorPoint (-0.0005001) 0) 0 Null Null)
          (Node (equatorPoint 0.00050025 2) 0 Null Null))
       (Node (equatorPoint 0.0001 5) 1
          (Node (equatorPoint 0.00005 4) 0 Null Null)
          (Node (equatorPoint 0.00015 6) 0 Null Null))"
  by (simp add: street_treePoints Let_def)

lemma metresPerDegree_lower: "70000 < metresPerDegree"
proof -
  have "(70000::real) < 6371000 * 2 / 180" by simp
  also have "\<dots> \<le> 6371000 * pi / 180" using pi_ge_two by simp
  finally show ?thesis by (simp add: metresPerDegree_def)
qed

lemma street_query:
  "findKNearestNeighborDistances (buildKdTree (treePoints streetTrees) 0)
     (treePoints streetTrees ! 3) 5 =
   [0.00005 * metresPerDegree, 0.0001 * metresPerDegree, 0.00015 * metresPerDegree,
    0.0005 * metresPerDegree, 0.00050025 * metresPerDegree]"
  using metresPerDegree_bounds
  by (simp add: findKNearestNeighborDistances_def street_tree street_treePoints Let_def
      equator_origin_distance addDistance_def getAxisDistanceMeters_def
      longitude_metres_equator)

lemma street_brute_force:
  "bruteForceDistances (treePoints streetTrees) (treePoints streetTrees ! 3) 5 =
   [0.00005 * metresPerDegree, 0.0001 * metresPerDegree, 0.00015 * metresPerDegree,
    0.0005 * metresPerDegree, 0.0005001 * metresPerDegree]"
  using metresPerDegree_bounds
  by (simp add: bruteForceDistances_def street_treePoints equator_origin_distance)

lemma street_code_score:
  "treeFriendsScore (assignTreeFriendsScores streetTrees 5 ! 3) =
     Fin (10 - 0.12 * (0.00026005 * metresPerDegree - 2))"
proof -
  have l: "3 < length streetTrees" by (simp add: streetTrees_def)
  have a: "foldl (+) 0 [0.00005 * metresPerDegree, 0.0001 * metresPerDegree,
             0.00015 * metresPerDegree, 0.0005 * metresPerDegree,
             0.00050025 * metresPerDegree] / real (5::nat) = 0.00026005 * metresPerDegree"
    by simp
  have b: "2 \<le> 0.00026005 * metresPerDegree" "0.00026005 * metresPerDegree \<le> 30"
    using metresPerDegree_lower metresPerDegree_bounds by simp_all
  then have g: "getTreeFriendsScore (Fin (0.00026005 * metresPerDegree)) =
           10 - 0.12 * (0.00026005 * metresPerDegree - 2)"
    by (simp add: getTreeFriendsScore_def clamp_def)
  show ?thesis
    unfolding assignTreeFriendsScores_nth[OF l] street_query Let_def
    using a g by simp
qed

lemma street_spec_score:
  "specDensityScore streetTrees 3 = 10 - 0.12 * (0.00026002 * metresPerDegree - 2)"
proof -
  have a: "sum_list [0.00005 * metresPerDegree, 0.0001 * metresPerDegree,
             0.00015 * metresPerDegree, 0.0005 * metresPerDegree,
             0.0005001 * metresPerDegree] / real (5::nat) = 0.00026002 * metresPerDegree"
    by simp
  have b: "2 \<le> 0.00026002 * metresPerDegree" "0.00026002 * metresPerDegree \<le> 30"
    using metresPerDegree_lower metresPerDegree_bounds by simp_all
  show ?thesis
    unfolding specDensityScore_def street_brute_force Let_def
    using a b by (simp add: clamp_def)
qed

text \<open>
  Claim C3. For every point, the density score is the score of the average of the five
  nearest geodesic distances: 10 when there is no neighbour or the average is at most
  zero or below 2 metres, else \<open>10 - 0.12 * (average - 2)\<close> clamped to [0,10]. The code
  computes this from the result of the query, so it holds where the query is the scan
  (\<open>density_score_when_lower_bounded\<close>; a single point scores 10,
  \<open>density_score_examples\<close>), and fails where the query misses a neighbour: for the
  seven trees at street scale, the score of the tree at longitude 0 is that of the
  average \<open>0.00026005\<close> degrees of arc, about 6.7701, and the score of the average of
  its five nearest distances, \<open>0.00026002\<close> degrees of arc, is about 6.7705.
\<close>

theorem street_density_score_off:
  "treeFriendsScore (assignTreeFriendsScores streetTrees 5 ! 3) =
     Fin (10 - 0.12 * (0.00026005 * metresPerDegree - 2)) \<and>
   specDensityScore streetTrees 3 = 10 - 0.12 * (0.00026002 * metresPerDegree - 2) \<and>
   treeFriendsScore (assignTreeFriendsScores streetTrees 5 ! 3) \<noteq>
     Fin (specDensityScore streetTrees 3)"
  using metresPerDegree_bounds(1) by (simp add: street_code_score street_spec_score)

end
